theory Spec2Isabelle
  imports Main "HOL-Library.Word" "HOL-Library.AList"
begin

section \<open>Python built-ins used by the codec\<close>

text \<open>
  Python strings are modelled as \<open>string\<close>, \<open>bytes\<close> as lists of 8-bit words and Python's
  unbounded \<open>int\<close> as \<open>int\<close>.  The model of the string built-ins is that of Python on ASCII
  text, code points below 128: it knows the ASCII letters, digits and white space only, and
  the statements about names below are about ASCII names.
\<close>

type_synonym byte = "8 word"
type_synonym bytes = "byte list"

definition hex_val :: "char \<Rightarrow> nat option" where
  \<comment> \<open>value of a hexadecimal digit, either case\<close>
  "hex_val c = (let n = (of_char c :: nat) in
     if 48 \<le> n \<and> n \<le> 57 then Some (n - 48)
     else if 97 \<le> n \<and> n \<le> 102 then Some (n - 87)
     else if 65 \<le> n \<and> n \<le> 70 then Some (n - 55)
     else None)"

definition hexdigit :: "nat \<Rightarrow> char" where
  \<comment> \<open>the lower-case digit of a value below 16\<close>
  "hexdigit d = char_of (if d < 10 then 48 + d else 87 + d)"

definition is_hex :: "char \<Rightarrow> bool" where
  "is_hex c = (hex_val c \<noteq> None)"

definition int_space :: "char \<Rightarrow> bool" where
  \<comment> \<open>the white space that \<open>int()\<close> strips from an ASCII string: TAB, LF, VT, FF, CR, SPACE\<close>
  "int_space c = (let n = (of_char c :: nat) in (9 \<le> n \<and> n \<le> 13) \<or> n = 32)"

definition bytes_space :: "char \<Rightarrow> bool" where
  \<comment> \<open>the ASCII white space that \<open>bytes.fromhex\<close> skips: TAB, LF, VT, FF, CR, SPACE\<close>
  "bytes_space c = (let n = (of_char c :: nat) in (9 \<le> n \<and> n \<le> 13) \<or> n = 32)"

definition py_upper :: "char \<Rightarrow> char" where
  "py_upper c = (let n = (of_char c :: nat) in if 97 \<le> n \<and> n \<le> 122 then char_of (n - 32) else c)"

definition py_lower :: "char \<Rightarrow> char" where
  "py_lower c = (let n = (of_char c :: nat) in if 65 \<le> n \<and> n \<le> 90 then char_of (n + 32) else c)"

definition is_upper :: "char \<Rightarrow> bool" where
  "is_upper c = (let n = (of_char c :: nat) in 65 \<le> n \<and> n \<le> 90)"

definition startswith :: "string \<Rightarrow> string \<Rightarrow> bool" where
  \<comment> \<open>\<open>s.startswith(p)\<close>\<close>
  "startswith s p = (take (length p) s = p)"

definition removesuffix :: "string \<Rightarrow> string \<Rightarrow> string" where
  \<comment> \<open>\<open>s.removesuffix(p)\<close>: one occurrence, only at the very end\<close>
  "removesuffix s p =
     (if p \<noteq> [] \<and> length p \<le> length s \<and> drop (length s - length p) s = p
      then take (length s - length p) s else s)"

fun split_on :: "char \<Rightarrow> string \<Rightarrow> string list" where
  \<comment> \<open>\<open>s.split(sep)\<close> for a one-character separator: never empty, keeps empty segments\<close>
  "split_on sep [] = [[]]"
| "split_on sep (c # cs) =
     (if c = sep then [] # split_on sep cs
      else (case split_on sep cs of [] \<Rightarrow> [[c]] | p # ps \<Rightarrow> (c # p) # ps))"

definition capitalize :: "string \<Rightarrow> string" where
  \<comment> \<open>\<open>s.capitalize()\<close> on ASCII text: first character upper-cased, every other
      character lower-cased\<close>
  "capitalize s = (case s of [] \<Rightarrow> [] | c # cs \<Rightarrow> py_upper c # map py_lower cs)"

function hex_digits :: "nat \<Rightarrow> string" where
  \<comment> \<open>the digits of \<open>hex(n)\<close> after the prefix: lower case, no leading zero, \<open>0\<close> for zero\<close>
  "hex_digits n = (if n < 16 then [hexdigit n] else hex_digits (n div 16) @ [hexdigit (n mod 16)])"
  by pat_completeness auto
termination
  by (relation "measure (\<lambda>n. n)") auto

declare hex_digits.simps [simp del]

definition py_hex :: "int \<Rightarrow> string" where
  \<comment> \<open>\<open>hex(n)\<close>; a negative number keeps its sign in front of the prefix\<close>
  "py_hex n = (if n < 0 then ''-0x'' @ hex_digits (nat (- n)) else ''0x'' @ hex_digits (nat n))"

definition hex_byte :: "byte \<Rightarrow> string" where
  "hex_byte b = [hexdigit (unat b div 16), hexdigit (unat b mod 16)]"

definition bytes_hex :: "bytes \<Rightarrow> string" where
  \<comment> \<open>\<open>b.hex()\<close>: two lower-case digits for each byte\<close>
  "bytes_hex bs = concat (map hex_byte bs)"

fun bytes_fromhex :: "string \<Rightarrow> bytes option" where
  \<comment> \<open>\<open>bytes.fromhex(s)\<close>; \<open>None\<close> is its \<open>ValueError\<close>.  White space is skipped in front of
      a pair of digits, never inside one.\<close>
  "bytes_fromhex [] = Some []"
| "bytes_fromhex [c] = (if bytes_space c then Some [] else None)"
| "bytes_fromhex (c # d # cs) =
     (if bytes_space c then bytes_fromhex (d # cs)
      else (case (hex_val c, hex_val d) of
              (Some h, Some l) \<Rightarrow> map_option ((#) (word_of_nat (16 * h + l))) (bytes_fromhex cs)
            | _ \<Rightarrow> None))"

definition rstrip_int :: "string \<Rightarrow> string" where
  "rstrip_int s = rev (dropWhile int_space (rev s))"

fun no_double_underscore :: "string \<Rightarrow> bool" where
  "no_double_underscore (c # d # cs) = (\<not> (c = CHR ''_'' \<and> d = CHR ''_'') \<and> no_double_underscore (d # cs))"
| "no_double_underscore _ = True"

definition int_of_hex_digits :: "string \<Rightarrow> int" where
  "int_of_hex_digits ds = foldl (\<lambda>a c. 16 * a + int (the (hex_val c))) 0 ds"

definition py_int_0x :: "string \<Rightarrow> int option" where
  \<comment> \<open>\<open>int(''0x'' + rest, 0)\<close>; \<open>None\<close> is its \<open>ValueError\<close>.  After the prefix Python allows
      one underscore, then digits with single underscores between them, then white space.\<close>
  "py_int_0x rest =
     (let body = rstrip_int rest;
          ds = (case body of [] \<Rightarrow> [] | c # cs \<Rightarrow> if c = CHR ''_'' then cs else body)
      in if ds = [] \<or> hd ds = CHR ''_'' \<or> last ds = CHR ''_'' \<or> \<not> no_double_underscore ds
            \<or> \<not> list_all (\<lambda>c. is_hex c \<or> c = CHR ''_'') ds
         then None
         else Some (int_of_hex_digits (filter (\<lambda>c. c \<noteq> CHR ''_'') ds)))"

section \<open>Field-name translation\<close>

definition to_camel_case :: "string \<Rightarrow> string" where
  \<comment> \<open>\<open>_to_camel_case(name, _metadata)\<close>; the metadata argument is not used\<close>
  "to_camel_case name0 =
     (let name = removesuffix name0 ''_'';
          parts = split_on CHR ''_'' name
      in hd parts @ concat (map capitalize (tl parts)))"

text \<open>The rule as the specification words it: a segment after the first gets its first
  letter in upper case and keeps its other letters.\<close>

definition capitalize_spec :: "string \<Rightarrow> string" where
  "capitalize_spec s = (case s of [] \<Rightarrow> [] | c # cs \<Rightarrow> py_upper c # cs)"

definition wire_name_spec :: "string \<Rightarrow> string" where
  "wire_name_spec name0 =
     (let name = (if name0 \<noteq> [] \<and> last name0 = CHR ''_'' then butlast name0 else name0);
          parts = split_on CHR ''_'' name
      in (case parts of [] \<Rightarrow> [] | p # ps \<Rightarrow> p @ concat (map capitalize_spec ps)))"

text \<open>A domain field name is in snake case: ASCII, without upper-case letters.\<close>

definition domain_field_name :: "string \<Rightarrow> bool" where
  "domain_field_name name = list_all (\<lambda>c. (of_char c :: nat) < 128 \<and> \<not> is_upper c) name"

section \<open>RPC errors\<close>

datatype RPCErrorCode =
    SERVER_ERROR | INVALID_REQUEST | METHOD_NOT_FOUND | INVALID_PARAMETER | EXECUTION_ERROR

fun RPCErrorCode_value :: "RPCErrorCode \<Rightarrow> int" where
  "RPCErrorCode_value SERVER_ERROR = - 32000"
| "RPCErrorCode_value INVALID_REQUEST = - 32600"
| "RPCErrorCode_value METHOD_NOT_FOUND = - 32601"
| "RPCErrorCode_value INVALID_PARAMETER = - 32602"
| "RPCErrorCode_value EXECUTION_ERROR = 3"

definition RPCErrorCode_members :: "RPCErrorCode list" where
  "RPCErrorCode_members =
     [SERVER_ERROR, INVALID_REQUEST, METHOD_NOT_FOUND, INVALID_PARAMETER, EXECUTION_ERROR]"

definition RPCErrorCode_lookup :: "int \<Rightarrow> RPCErrorCode option" where
  \<comment> \<open>\<open>RPCErrorCode(value)\<close>: the member with that value; \<open>None\<close> is the \<open>ValueError\<close>\<close>
  "RPCErrorCode_lookup v = find (\<lambda>m. RPCErrorCode_value m = v) RPCErrorCode_members"

record RPCError =
  code :: int
  message :: string
  data :: "bytes option"

definition parsed_code :: "RPCError \<Rightarrow> RPCErrorCode option" where
  \<comment> \<open>the property \<open>parsed_code\<close>: the \<open>ValueError\<close> of the lookup is caught and becomes \<open>None\<close>\<close>
  "parsed_code e = (case RPCErrorCode_lookup (code e) of Some m \<Rightarrow> Some m | None \<Rightarrow> None)"

definition with_code :: "RPCErrorCode \<Rightarrow> string \<Rightarrow> bytes option \<Rightarrow> RPCError" where
  "with_code c m d = \<lparr> code = RPCErrorCode_value c, message = m, data = d \<rparr>"

section \<open>JSON values, domain values and failures\<close>

datatype json =
    JNull
  | JBool bool
  | JInt int
  | JFloat "64 word"  \<comment> \<open>a Python \<open>float\<close>, as its binary64 bit pattern\<close>
  | JStr string
  | JList "json list"
  | JObj "(string \<times> json) list"  \<comment> \<open>a \<open>dict\<close>: keys in insertion order, looked up with \<open>map_of\<close>\<close>

datatype BlockLabel = LATEST | PENDING | SAFE | FINALIZED | EARLIEST

fun BlockLabel_value :: "BlockLabel \<Rightarrow> string" where
  "BlockLabel_value LATEST = ''latest''"
| "BlockLabel_value PENDING = ''pending''"
| "BlockLabel_value SAFE = ''safe''"
| "BlockLabel_value FINALIZED = ''finalized''"
| "BlockLabel_value EARLIEST = ''earliest''"

definition BlockLabel_lookup :: "string \<Rightarrow> BlockLabel option" where
  \<comment> \<open>\<open>BlockLabel(value)\<close>; \<open>None\<close> is the \<open>ValueError\<close>\<close>
  "BlockLabel_lookup s = find (\<lambda>l. BlockLabel_value l = s) [LATEST, PENDING, SAFE, FINALIZED, EARLIEST]"

datatype data_cls =
    LogTopic | BlockHash | TxHash | TrieHash | UnclesHash | BlockNonce | LogsBloom | Address

fun data_length :: "data_cls \<Rightarrow> nat" where
  \<comment> \<open>the \<open>_length\<close> method of each subclass of \<open>TypedData\<close>\<close>
  "data_length LogTopic = 32"
| "data_length BlockHash = 32"
| "data_length TxHash = 32"
| "data_length TrieHash = 32"
| "data_length UnclesHash = 32"
| "data_length BlockNonce = 8"
| "data_length LogsBloom = 256"
| "data_length Address = 20"  \<comment> \<open>from the specification; the class is not in \<open>_rpc.py\<close>\<close>

datatype record_cls =
    TxInfo | LogEntry | TxReceipt | BlockInfo | RPCError_cls | Type2Transaction
  | EthCallParams | EstimateGasParams | FilterParams | FilterParamsEIP234

datatype val =
    VNone
  | VBool bool
  | VInt int  \<comment> \<open>an \<open>int\<close>; an \<open>ErrorCode\<close> is a plain \<open>int\<close> at run time\<close>
  | VStr string
  | VBytes bytes
  | VLabel BlockLabel
  | VData data_cls bytes  \<comment> \<open>an instance of a subclass of \<open>TypedData\<close>\<close>
  | VAmount int  \<comment> \<open>an \<open>Amount\<close>, the one subclass of \<open>TypedQuantity\<close> in the schema\<close>
  | VTuple "val list"
  | VRecord record_cls "(string \<times> val) list"  \<comment> \<open>a dataclass instance: its fields in declared order\<close>

datatype error =
    HexDataExpected  \<comment> \<open>\<open>StructuringError("The value must be a 0x-prefixed hex-encoded data")\<close>\<close>
  | FromHexFailed  \<comment> \<open>\<open>StructuringError(str(exc))\<close> for the \<open>ValueError\<close> of \<open>bytes.fromhex\<close>\<close>
  | BlockLabelInvalid  \<comment> \<open>\<open>StructuringError(str(exc))\<close> for the \<open>ValueError\<close> of \<open>BlockLabel(val)\<close>\<close>
  | HexIntExpected  \<comment> \<open>\<open>StructuringError("The value must be a 0x-prefixed hex-encoded integer")\<close>\<close>
  | TxNotMapping  \<comment> \<open>\<open>StructuringError("Transaction must be a mapping type")\<close>\<close>
  | TxTypeMissing  \<comment> \<open>\<open>StructuringError("Transaction is missing the `type` field")\<close>\<close>
  | TxTypeMismatch int int  \<comment> \<open>\<open>StructuringError("Expected transaction type .., got ..")\<close>\<close>
  | BareValueError  \<comment> \<open>the \<open>ValueError\<close> of \<open>int(val, 0)\<close>, which no handler catches\<close>
  | ValidationError  \<comment> \<open>a constructor of a value type rejects its argument\<close>
  | TypeMismatch  \<comment> \<open>a handler of the library is given a value of another kind\<close>
  | MissingField string
  | FieldError string error
  | ElementError nat error
  | NoMatchingVariant

fun is_StructuringError :: "error \<Rightarrow> bool" where
  \<comment> \<open>what an \<open>except StructuringError\<close> clause catches\<close>
  "is_StructuringError BareValueError = False"
| "is_StructuringError _ = True"

section \<open>Value types\<close>

text \<open>Modelled from the spec: the constructors of \<open>TypedData\<close> and \<open>TypedQuantity\<close>, which
  live in \<open>_typed_wrappers.py\<close>.  The specification (4.1, 4.2) has the first fail unless
  the length is the constant of the class, and the second fail on a negative number.\<close>

definition TypedData_init :: "data_cls \<Rightarrow> bytes \<Rightarrow> error + val" where
  "TypedData_init c bs = (if length bs \<noteq> data_length c then Inl ValidationError else Inr (VData c bs))"

definition TypedQuantity_init :: "int \<Rightarrow> error + val" where
  "TypedQuantity_init n = (if n < 0 then Inl ValidationError else Inr (VAmount n))"

text \<open>Modelled from the spec: the checksum text of an address (4.2), the lower-case
  hexadecimal text of the bytes with some letters in upper case.  Which ones is decided by a
  hash of the address; the rule is the parameter \<open>up\<close>, from the bytes and the position
  of a digit.\<close>

definition cased :: "bool \<Rightarrow> char \<Rightarrow> char" where
  "cased u c = (if u then py_upper c else c)"

fun checksum_digits :: "(nat \<Rightarrow> bool) \<Rightarrow> nat \<Rightarrow> bytes \<Rightarrow> string" where
  "checksum_digits u i [] = []"
| "checksum_digits u i (b # bs) =
     cased (u i) (hexdigit (unat b div 16)) # cased (u (i + 1)) (hexdigit (unat b mod 16))
       # checksum_digits u (i + 2) bs"

definition checksum :: "(bytes \<Rightarrow> nat \<Rightarrow> bool) \<Rightarrow> bytes \<Rightarrow> string" where
  "checksum up bs = ''0x'' @ checksum_digits (up bs) 0 bs"

section \<open>Structuring handlers\<close>

type_synonym structure_fn = "json \<Rightarrow> error + val"

definition IntoBytesFromHex_bytes :: "json \<Rightarrow> error + bytes" where
  \<comment> \<open>\<open>_IntoBytesFromHex.structure\<close>\<close>
  "IntoBytesFromHex_bytes j =
     (case j of
        JStr s \<Rightarrow>
          if \<not> startswith s ''0x'' then Inl HexDataExpected
          else (case bytes_fromhex (drop 2 s) of Some bs \<Rightarrow> Inr bs | None \<Rightarrow> Inl FromHexFailed)
      | _ \<Rightarrow> Inl HexDataExpected)"

definition IntoBytesFromHex :: structure_fn where
  "IntoBytesFromHex j = map_sum id VBytes (IntoBytesFromHex_bytes j)"

definition IntoBlockLabel :: structure_fn where
  "IntoBlockLabel j =
     (case j of
        JStr s \<Rightarrow> (case BlockLabel_lookup s of Some l \<Rightarrow> Inr (VLabel l) | None \<Rightarrow> Inl BlockLabelInvalid)
      | _ \<Rightarrow> Inl BlockLabelInvalid)"

definition IntoIntFromHex_int :: "json \<Rightarrow> error + int" where
  \<comment> \<open>\<open>_IntoIntFromHex.structure\<close>: the \<open>ValueError\<close> of \<open>int(val, 0)\<close> is not caught\<close>
  "IntoIntFromHex_int j =
     (case j of
        JStr s \<Rightarrow>
          if \<not> startswith s ''0x'' then Inl HexIntExpected
          else (case py_int_0x (drop 2 s) of Some n \<Rightarrow> Inr n | None \<Rightarrow> Inl BareValueError)
      | _ \<Rightarrow> Inl HexIntExpected)"

definition IntoIntFromHex :: structure_fn where
  "IntoIntFromHex j = map_sum id VInt (IntoIntFromHex_int j)"

definition IntoTypedData :: "data_cls \<Rightarrow> structure_fn" where
  \<comment> \<open>\<open>_IntoTypedData.structure\<close>, with \<open>context.structure_into\<close> the class \<open>c\<close>\<close>
  "IntoTypedData c j =
     (case IntoBytesFromHex_bytes j of Inl e \<Rightarrow> Inl e | Inr bs \<Rightarrow> TypedData_init c bs)"

definition IntoTypedQuantity :: structure_fn where
  \<comment> \<open>\<open>_IntoTypedQuantity.structure\<close>, with \<open>context.structure_into\<close> the class \<open>Amount\<close>\<close>
  "IntoTypedQuantity j =
     (case IntoIntFromHex_int j of Inl e \<Rightarrow> Inl e | Inr n \<Rightarrow> TypedQuantity_init n)"

definition IntoTypedTx :: "int \<Rightarrow> (json \<Rightarrow> error + int) \<Rightarrow> structure_fn \<Rightarrow> structure_fn" where
  \<comment> \<open>\<open>_IntoTypedTx(type_num).structure\<close>.  \<open>structure_int\<close> is
      \<open>context.structurer.structure_into(int, _)\<close>; \<open>next_handler\<close> is the handler the
      structurer runs on the yielded value, whose result the generator returns.\<close>
  "IntoTypedTx type_num structure_int next_handler j =
     (case j of
        JObj m \<Rightarrow>
          (case map_of m ''type'' of
             None \<Rightarrow> Inl TxTypeMissing
           | Some t \<Rightarrow>
               (case structure_int t of
                  Inl e \<Rightarrow> Inl e
                | Inr tx_type \<Rightarrow>
                    if tx_type \<noteq> type_num then Inl (TxTypeMismatch type_num tx_type)
                    else next_handler j))
      | _ \<Rightarrow> Inl TxNotMapping)"

text \<open>Modelled from the spec: the handlers of the library \<open>compages\<close> (4.4), which the
  registry attaches to the primitive and composite types.  A failure that is not a
  \<open>StructuringError\<close> is not caught by any of them.\<close>

definition IntoNone :: structure_fn where
  "IntoNone j = (case j of JNull \<Rightarrow> Inr VNone | _ \<Rightarrow> Inl TypeMismatch)"

definition IntoBool :: structure_fn where
  "IntoBool j = (case j of JBool b \<Rightarrow> Inr (VBool b) | _ \<Rightarrow> Inl TypeMismatch)"

definition IntoInt :: structure_fn where
  "IntoInt j = (case j of JInt n \<Rightarrow> Inr (VInt n) | _ \<Rightarrow> Inl TypeMismatch)"

definition IntoStr :: structure_fn where
  "IntoStr j = (case j of JStr s \<Rightarrow> Inr (VStr s) | _ \<Rightarrow> Inl TypeMismatch)"

fun structure_elements :: "structure_fn \<Rightarrow> nat \<Rightarrow> json list \<Rightarrow> error + val list" where
  \<comment> \<open>the elements in order; the first failure stops the loop and carries its position\<close>
  "structure_elements h i [] = Inr []"
| "structure_elements h i (j # js) =
     (case h j of
        Inl e \<Rightarrow> Inl (if is_StructuringError e then ElementError i e else e)
      | Inr v \<Rightarrow> (case structure_elements h (i + 1) js of Inl e \<Rightarrow> Inl e | Inr vs \<Rightarrow> Inr (v # vs)))"

definition IntoTuple :: "structure_fn \<Rightarrow> structure_fn" where
  \<comment> \<open>into \<open>tuple[T, ...]\<close>, with \<open>h\<close> the structuring into \<open>T\<close>\<close>
  "IntoTuple h j =
     (case j of JList js \<Rightarrow> map_sum id VTuple (structure_elements h 0 js) | _ \<Rightarrow> Inl TypeMismatch)"

fun IntoUnion :: "structure_fn list \<Rightarrow> structure_fn" where
  \<comment> \<open>the variants in declaration order; the first that succeeds is taken\<close>
  "IntoUnion [] j = Inl NoMatchingVariant"
| "IntoUnion (h # hs) j =
     (case h j of
        Inr v \<Rightarrow> Inr v
      | Inl e \<Rightarrow> if is_StructuringError e then IntoUnion hs j else Inl e)"

fun structure_fields ::
  "(string \<Rightarrow> string) \<Rightarrow> (string \<times> structure_fn \<times> val option) list \<Rightarrow> (string \<times> json) list
     \<Rightarrow> error + (string \<times> val) list" where
  \<comment> \<open>each field is looked up under its wire name; a missing field takes its default\<close>
  "structure_fields nm [] m = Inr []"
| "structure_fields nm ((f, h, dflt) # fs) m =
     (case (case map_of m (nm f) of
              Some j \<Rightarrow> (case h j of
                          Inl e \<Rightarrow> Inl (if is_StructuringError e then FieldError f e else e)
                        | Inr v \<Rightarrow> Inr v)
            | None \<Rightarrow> (case dflt of Some d \<Rightarrow> Inr d | None \<Rightarrow> Inl (MissingField f)))
      of Inl e \<Rightarrow> Inl e
       | Inr v \<Rightarrow> (case structure_fields nm fs m of Inl e \<Rightarrow> Inl e | Inr vs \<Rightarrow> Inr ((f, v) # vs)))"

definition IntoDataclassFromMapping ::
  "(string \<Rightarrow> string) \<Rightarrow> record_cls \<Rightarrow> (string \<times> structure_fn \<times> val option) list \<Rightarrow> structure_fn" where
  \<comment> \<open>keys of the mapping that name no field are ignored\<close>
  "IntoDataclassFromMapping nm c fs j =
     (case j of JObj m \<Rightarrow> map_sum id (VRecord c) (structure_fields nm fs m) | _ \<Rightarrow> Inl TypeMismatch)"

section \<open>Type descriptors and the structurer\<close>

datatype ty =
    TInt | TStr | TBool | TBytes | TNone
  | TErrorCode  \<comment> \<open>\<open>ErrorCode = NewType("ErrorCode", int)\<close>\<close>
  | TBlockLabel
  | TData data_cls
  | TAmount
  | TTupleOf ty  \<comment> \<open>\<open>tuple[T, ...]\<close>\<close>
  | TUnion "ty list"
  | TDataclass record_cls "(string \<times> ty \<times> val option) list"
      \<comment> \<open>a dataclass: for each field its name, its type and its default\<close>

fun structure_into :: "ty \<Rightarrow> structure_fn" where
  \<comment> \<open>\<open>STRUCTURER.structure_into\<close>: one equation for each entry of the registry\<close>
  "structure_into TInt = IntoIntFromHex"
| "structure_into TStr = IntoStr"
| "structure_into TBool = IntoBool"
| "structure_into TBytes = IntoBytesFromHex"
| "structure_into TNone = IntoNone"
| "structure_into TErrorCode = IntoInt"
| "structure_into TBlockLabel = IntoBlockLabel"
| "structure_into (TData c) = IntoTypedData c"
| "structure_into TAmount = IntoTypedQuantity"
| "structure_into (TTupleOf t) = IntoTuple (structure_into t)"
| "structure_into (TUnion ts) = IntoUnion (map structure_into ts)"
| "structure_into (TDataclass c fs) =
     (let dataclass = IntoDataclassFromMapping to_camel_case c
                        (map (\<lambda>(f, t, d). (f, structure_into t, d)) fs)
      in if c = Type2Transaction then IntoTypedTx 2 IntoIntFromHex_int dataclass else dataclass)"

definition "structure" :: "ty \<Rightarrow> json \<Rightarrow> error + val" where
  "structure t obj = structure_into t obj"

section \<open>Unstructuring handlers\<close>

text \<open>An unstructuring handler returns \<open>None\<close> where the Python raises.\<close>

type_synonym unstructure_fn = "val \<Rightarrow> json option"

definition AsIntToHex :: unstructure_fn where
  \<comment> \<open>\<open>_AsIntToHex.unstructure\<close>: \<open>hex(val)\<close>\<close>
  "AsIntToHex v =
     (case v of
        VInt n \<Rightarrow> Some (JStr (py_hex n))
      | VBool b \<Rightarrow> Some (JStr (py_hex (if b then 1 else 0)))
      | _ \<Rightarrow> None)"

definition AsBytesToHex :: unstructure_fn where
  \<comment> \<open>\<open>_AsBytesToHex.unstructure\<close>\<close>
  "AsBytesToHex v = (case v of VBytes bs \<Rightarrow> Some (JStr (''0x'' @ bytes_hex bs)) | _ \<Rightarrow> None)"

definition AsTypedData :: unstructure_fn where
  \<comment> \<open>\<open>_AsTypedData.unstructure\<close>\<close>
  "AsTypedData v = (case v of VData c bs \<Rightarrow> Some (JStr (''0x'' @ bytes_hex bs)) | _ \<Rightarrow> None)"

definition AsTypedQuantity :: unstructure_fn where
  \<comment> \<open>\<open>_AsTypedQuantity.unstructure\<close>\<close>
  "AsTypedQuantity v = (case v of VAmount n \<Rightarrow> Some (JStr (py_hex n)) | _ \<Rightarrow> None)"

definition AsAddress :: "(bytes \<Rightarrow> nat \<Rightarrow> bool) \<Rightarrow> unstructure_fn" where
  \<comment> \<open>\<open>_AsAddress.unstructure\<close>: \<open>val.checksum\<close>\<close>
  "AsAddress up v = (case v of VData c bs \<Rightarrow> if c = Address then Some (JStr (checksum up bs)) else None | _ \<Rightarrow> None)"

definition AsBlockLabel :: unstructure_fn where
  \<comment> \<open>\<open>_AsBlockLabel.unstructure\<close>\<close>
  "AsBlockLabel v = (case v of VLabel l \<Rightarrow> Some (JStr (BlockLabel_value l)) | _ \<Rightarrow> None)"

definition AsTypedTx :: "int \<Rightarrow> unstructure_fn \<Rightarrow> unstructure_fn" where
  \<comment> \<open>\<open>_AsTypedTx(type_num).unstructure\<close>: \<open>next_handler\<close> is the handler the unstructurer runs
      on the yielded value; its result is sent back as \<open>tx_dict\<close>\<close>
  "AsTypedTx type_num next_handler v =
     (case next_handler v of
        Some (JObj tx_dict) \<Rightarrow>
          (case AsIntToHex (VInt type_num) of
             Some t \<Rightarrow> Some (JObj (AList.update ''type'' t tx_dict))
           | None \<Rightarrow> None)
      | _ \<Rightarrow> None)"

text \<open>Modelled from the spec: the unstructuring handlers of the library \<open>compages\<close> (4.4).\<close>

definition AsNone :: unstructure_fn where
  "AsNone v = (case v of VNone \<Rightarrow> Some JNull | _ \<Rightarrow> None)"

definition AsBool :: unstructure_fn where
  "AsBool v = (case v of VBool b \<Rightarrow> Some (JBool b) | _ \<Rightarrow> None)"

definition AsInt :: unstructure_fn where
  "AsInt v = (case v of VInt n \<Rightarrow> Some (JInt n) | _ \<Rightarrow> None)"

definition AsStr :: unstructure_fn where
  "AsStr v = (case v of VStr s \<Rightarrow> Some (JStr s) | _ \<Rightarrow> None)"

fun unstructure_elements :: "unstructure_fn \<Rightarrow> val list \<Rightarrow> json list option" where
  "unstructure_elements h [] = Some []"
| "unstructure_elements h (v # vs) =
     (case h v of
        None \<Rightarrow> None
      | Some j \<Rightarrow> (case unstructure_elements h vs of None \<Rightarrow> None | Some js \<Rightarrow> Some (j # js)))"

definition AsTuple :: "unstructure_fn \<Rightarrow> unstructure_fn" where
  "AsTuple h v = (case v of VTuple vs \<Rightarrow> map_option JList (unstructure_elements h vs) | _ \<Rightarrow> None)"

fun AsUnion :: "((val \<Rightarrow> bool) \<times> unstructure_fn) list \<Rightarrow> unstructure_fn" where
  \<comment> \<open>the first variant the value is an instance of; no trial of the others\<close>
  "AsUnion [] v = None"
| "AsUnion ((is_instance, h) # hs) v = (if is_instance v then h v else AsUnion hs v)"

fun unstructure_fields ::
  "(string \<Rightarrow> string) \<Rightarrow> (string \<times> unstructure_fn) list \<Rightarrow> (string \<times> val) list
     \<Rightarrow> (string \<times> json) list option" where
  \<comment> \<open>the fields in declared order, each with its wire name\<close>
  "unstructure_fields nm [] attrs = Some []"
| "unstructure_fields nm ((f, h) # fs) attrs =
     (case map_of attrs f of
        None \<Rightarrow> None
      | Some v \<Rightarrow>
          (case h v of
             None \<Rightarrow> None
           | Some j \<Rightarrow>
               (case unstructure_fields nm fs attrs of
                  None \<Rightarrow> None
                | Some items \<Rightarrow> Some ((nm f, j) # items))))"

definition dict_of_items :: "(string \<times> json) list \<Rightarrow> (string \<times> json) list" where
  \<comment> \<open>\<open>result[key] = value\<close> for each item in turn, from the empty \<open>dict\<close>\<close>
  "dict_of_items items = foldl (\<lambda>result (k, j). AList.update k j result) [] items"

definition AsDataclassToDict ::
  "(string \<Rightarrow> string) \<Rightarrow> record_cls \<Rightarrow> (string \<times> unstructure_fn) list \<Rightarrow> unstructure_fn" where
  "AsDataclassToDict nm c fs v =
     (case v of
        VRecord c' attrs \<Rightarrow>
          if c' = c then map_option (\<lambda>items. JObj (dict_of_items items)) (unstructure_fields nm fs attrs)
          else None
      | _ \<Rightarrow> None)"

section \<open>The unstructurer\<close>

fun instance_of :: "ty \<Rightarrow> val \<Rightarrow> bool" where
  \<comment> \<open>\<open>isinstance\<close>, element by element for a tuple; a \<open>bool\<close> is an \<open>int\<close>\<close>
  "instance_of TInt v = (case v of VInt _ \<Rightarrow> True | VBool _ \<Rightarrow> True | _ \<Rightarrow> False)"
| "instance_of TErrorCode v = (case v of VInt _ \<Rightarrow> True | VBool _ \<Rightarrow> True | _ \<Rightarrow> False)"
| "instance_of TStr v = (case v of VStr _ \<Rightarrow> True | _ \<Rightarrow> False)"
| "instance_of TBool v = (case v of VBool _ \<Rightarrow> True | _ \<Rightarrow> False)"
| "instance_of TBytes v = (case v of VBytes _ \<Rightarrow> True | _ \<Rightarrow> False)"
| "instance_of TNone v = (v = VNone)"
| "instance_of TBlockLabel v = (case v of VLabel _ \<Rightarrow> True | _ \<Rightarrow> False)"
| "instance_of (TData c) v = (case v of VData c' _ \<Rightarrow> c' = c | _ \<Rightarrow> False)"
| "instance_of TAmount v = (case v of VAmount _ \<Rightarrow> True | _ \<Rightarrow> False)"
| "instance_of (TTupleOf t) v = (case v of VTuple vs \<Rightarrow> list_all (instance_of t) vs | _ \<Rightarrow> False)"
| "instance_of (TUnion ts) v = list_ex (\<lambda>t. instance_of t v) ts"
| "instance_of (TDataclass c fs) v = (case v of VRecord c' _ \<Rightarrow> c' = c | _ \<Rightarrow> False)"


fun unstructure_as :: "(bytes \<Rightarrow> nat \<Rightarrow> bool) \<Rightarrow> ty \<Rightarrow> unstructure_fn" where
  \<comment> \<open>\<open>UNSTRUCTURER.unstructure_as\<close>: one equation for each entry of the registry\<close>
  "unstructure_as up TInt = AsIntToHex"
| "unstructure_as up TStr = AsStr"
| "unstructure_as up TBool = AsBool"
| "unstructure_as up TBytes = AsBytesToHex"
| "unstructure_as up TNone = AsNone"
| "unstructure_as up TErrorCode = AsInt"
| "unstructure_as up TBlockLabel = AsBlockLabel"
| "unstructure_as up (TData c) = (if c = Address then AsAddress up else AsTypedData)"
| "unstructure_as up TAmount = AsTypedQuantity"
| "unstructure_as up (TTupleOf t) = AsTuple (unstructure_as up t)"
| "unstructure_as up (TUnion ts) = AsUnion (map (\<lambda>t. (instance_of t, unstructure_as up t)) ts)"
| "unstructure_as up (TDataclass c fs) =
     (let dataclass = AsDataclassToDict to_camel_case c
                        (map (\<lambda>(f, t, d). (f, unstructure_as up t)) fs)
      in if c = Type2Transaction then AsTypedTx 2 dataclass else dataclass)"

section \<open>The schema\<close>

definition optional :: "ty \<Rightarrow> ty" where
  \<comment> \<open>\<open>None | T\<close>\<close>
  "optional t = TUnion [TNone, t]"

definition TxInfo_ty :: ty where
  "TxInfo_ty = TDataclass TxInfo
     [(''chain_id'', TInt, None),
      (''type_'', TInt, None),
      (''hash_'', TData TxHash, None),
      (''input_'', optional TBytes, None),
      (''block_hash'', optional (TData BlockHash), None),
      (''block_number'', TInt, None),
      (''transaction_index'', optional TInt, None),
      (''from_'', TData Address, None),
      (''to'', optional (TData Address), None),
      (''value'', TAmount, None),
      (''nonce'', TInt, None),
      (''gas'', TInt, None),
      (''gas_price'', TAmount, None),
      (''max_fee_per_gas'', optional TAmount, None),
      (''max_priority_fee_per_gas'', optional TAmount, None),
      (''v'', TInt, None),
      (''r'', TInt, None),
      (''s'', TInt, None)]"

definition LogEntry_ty :: ty where
  "LogEntry_ty = TDataclass LogEntry
     [(''removed'', TBool, None),
      (''address'', TData Address, None),
      (''data'', TBytes, None),
      (''topics'', TTupleOf (TData LogTopic), None),
      (''log_index'', TInt, None),
      (''transaction_index'', TInt, None),
      (''transaction_hash'', TData TxHash, None),
      (''block_hash'', TData BlockHash, None),
      (''block_number'', TInt, None)]"

definition TxReceipt_ty :: ty where
  "TxReceipt_ty = TDataclass TxReceipt
     [(''block_hash'', TData BlockHash, None),
      (''block_number'', TInt, None),
      (''contract_address'', optional (TData Address), None),
      (''cumulative_gas_used'', TInt, None),
      (''effective_gas_price'', TAmount, None),
      (''from_'', TData Address, None),
      (''gas_used'', TInt, None),
      (''to'', optional (TData Address), None),
      (''transaction_hash'', TData TxHash, None),
      (''transaction_index'', TInt, None),
      (''type_'', TInt, None),
      (''status'', TInt, None),
      (''logs'', TTupleOf LogEntry_ty, None),
      (''logs_bloom'', TData LogsBloom, None)]"

definition BlockInfo_ty :: ty where
  "BlockInfo_ty = TDataclass BlockInfo
     [(''number'', TInt, None),
      (''hash_'', optional (TData BlockHash), None),
      (''parent_hash'', TData BlockHash, None),
      (''nonce'', optional (TData BlockNonce), None),
      (''miner'', optional (TData Address), None),
      (''difficulty'', TInt, None),
      (''total_difficulty'', optional TInt, None),
      (''size'', TInt, None),
      (''gas_limit'', TInt, None),
      (''gas_used'', TInt, None),
      (''base_fee_per_gas'', TAmount, None),
      (''timestamp'', TInt, None),
      (''transactions'', TUnion [TTupleOf TxInfo_ty, TTupleOf (TData TxHash)], None),
      (''uncles'', TTupleOf (TData BlockHash), None),
      (''sha3_uncles'', TData UnclesHash, None),
      (''logs_bloom'', optional (TData LogsBloom), None),
      (''transactions_root'', TData TrieHash, None),
      (''state_root'', TData TrieHash, None),
      (''receipts_root'', TData TrieHash, None),
      (''extra_data'', TBytes, None)]"

definition RPCError_ty :: ty where
  "RPCError_ty = TDataclass RPCError_cls
     [(''code'', TErrorCode, None),
      (''message'', TStr, None),
      (''data'', optional TBytes, Some VNone)]"

definition Type2Transaction_ty :: ty where
  "Type2Transaction_ty = TDataclass Type2Transaction
     [(''chain_id'', TInt, None),
      (''value'', TAmount, None),
      (''gas'', TInt, None),
      (''max_fee_per_gas'', TAmount, None),
      (''max_priority_fee_per_gas'', TAmount, None),
      (''nonce'', TInt, None),
      (''to'', optional (TData Address), Some VNone),
      (''data'', optional TBytes, Some VNone)]"

definition EthCallParams_ty :: ty where
  "EthCallParams_ty = TDataclass EthCallParams
     [(''to'', TData Address, None),
      (''from_'', optional (TData Address), Some VNone),
      (''gas'', optional TInt, Some VNone),
      (''gas_price'', TInt, Some (VInt 0)),
      (''value'', TAmount, Some (VAmount 0)),
      (''data'', optional TBytes, Some VNone)]"

definition EstimateGasParams_ty :: ty where
  "EstimateGasParams_ty = TDataclass EstimateGasParams
     [(''from_'', TData Address, None),
      (''to'', optional (TData Address), Some VNone),
      (''gas'', optional TInt, Some VNone),
      (''gas_price'', TInt, Some (VInt 0)),
      (''nonce'', optional TInt, Some VNone),
      (''value'', TAmount, Some (VAmount 0)),
      (''data'', optional TBytes, Some VNone)]"

definition Block_opt_ty :: ty where
  \<comment> \<open>\<open>None | Block\<close> with \<open>Block = int | BlockLabel\<close>: Python flattens the union\<close>
  "Block_opt_ty = TUnion [TNone, TInt, TBlockLabel]"

definition address_filter_ty :: ty where
  "address_filter_ty = TUnion [TNone, TData Address, TTupleOf (TData Address)]"

definition topics_filter_ty :: ty where
  "topics_filter_ty =
     optional (TTupleOf (TUnion [TNone, TData LogTopic, TTupleOf (TData LogTopic)]))"

definition FilterParams_ty :: ty where
  "FilterParams_ty = TDataclass FilterParams
     [(''from_block'', Block_opt_ty, Some VNone),
      (''to_block'', Block_opt_ty, Some VNone),
      (''address'', address_filter_ty, Some VNone),
      (''topics'', topics_filter_ty, Some VNone)]"

definition FilterParamsEIP234_ty :: ty where
  "FilterParamsEIP234_ty = TDataclass FilterParamsEIP234
     [(''block_hash'', TData BlockHash, None),
      (''address'', address_filter_ty, Some VNone),
      (''topics'', topics_filter_ty, Some VNone)]"

fun schema :: "record_cls \<Rightarrow> ty" where
  "schema TxInfo = TxInfo_ty"
| "schema LogEntry = LogEntry_ty"
| "schema TxReceipt = TxReceipt_ty"
| "schema BlockInfo = BlockInfo_ty"
| "schema RPCError_cls = RPCError_ty"
| "schema Type2Transaction = Type2Transaction_ty"
| "schema EthCallParams = EthCallParams_ty"
| "schema EstimateGasParams = EstimateGasParams_ty"
| "schema FilterParams = FilterParams_ty"
| "schema FilterParamsEIP234 = FilterParamsEIP234_ty"

fun py_type :: "val \<Rightarrow> ty option" where
  \<comment> \<open>\<open>type(obj)\<close>.  An \<open>ErrorCode\<close> is an \<open>int\<close> at run time.  For a tuple it is the bare
      class \<open>tuple\<close>, without the type of the elements, which the model leaves out.\<close>
  "py_type VNone = Some TNone"
| "py_type (VBool b) = Some TBool"
| "py_type (VInt n) = Some TInt"
| "py_type (VStr s) = Some TStr"
| "py_type (VBytes bs) = Some TBytes"
| "py_type (VLabel l) = Some TBlockLabel"
| "py_type (VData c bs) = Some (TData c)"
| "py_type (VAmount n) = Some TAmount"
| "py_type (VRecord c attrs) = Some (schema c)"
| "py_type (VTuple vs) = None"

definition unstructure :: "(bytes \<Rightarrow> nat \<Rightarrow> bool) \<Rightarrow> val \<Rightarrow> ty option \<Rightarrow> json option" where
  \<comment> \<open>\<open>unstructure(obj, unstructure_as=None)\<close>: \<open>unstructure_as or type(obj)\<close>\<close>
  "unstructure up obj unstructure_as_opt =
     (case (case unstructure_as_opt of Some t \<Rightarrow> Some t | None \<Rightarrow> py_type obj) of
        Some t \<Rightarrow> unstructure_as up t obj
      | None \<Rightarrow> None)"

section \<open>Valid instances\<close>

text \<open>A valid instance of a type: of the declared shape, every fixed-length value of the
  length of its class, every hex-encoded integer and every amount non-negative.\<close>

fun valid :: "ty \<Rightarrow> val \<Rightarrow> bool" where
  "valid TInt v = (case v of VInt n \<Rightarrow> 0 \<le> n | _ \<Rightarrow> False)"
| "valid TErrorCode v = (case v of VInt _ \<Rightarrow> True | _ \<Rightarrow> False)"
| "valid TStr v = (case v of VStr _ \<Rightarrow> True | _ \<Rightarrow> False)"
| "valid TBool v = (case v of VBool _ \<Rightarrow> True | _ \<Rightarrow> False)"
| "valid TBytes v = (case v of VBytes _ \<Rightarrow> True | _ \<Rightarrow> False)"
| "valid TNone v = (v = VNone)"
| "valid TBlockLabel v = (case v of VLabel _ \<Rightarrow> True | _ \<Rightarrow> False)"
| "valid (TData c) v = (case v of VData c' bs \<Rightarrow> c' = c \<and> length bs = data_length c | _ \<Rightarrow> False)"
| "valid TAmount v = (case v of VAmount n \<Rightarrow> 0 \<le> n | _ \<Rightarrow> False)"
| "valid (TTupleOf t) v = (case v of VTuple vs \<Rightarrow> list_all (valid t) vs | _ \<Rightarrow> False)"
| "valid (TUnion ts) v = list_ex (\<lambda>t. valid t v) ts"
| "valid (TDataclass c fs) v =
     (case v of
        VRecord c' fvs \<Rightarrow> c' = c \<and> list_all2 (\<lambda>(f, t, d) (f', x). f' = f \<and> valid t x) fs fvs
      | _ \<Rightarrow> False)"



text \<open>A type round-trips when every valid instance of it unstructures to a JSON value
  that structures back into the same instance.\<close>

definition round_trips :: "(bytes \<Rightarrow> nat \<Rightarrow> bool) \<Rightarrow> ty \<Rightarrow> bool" where
  "round_trips up t =
     (\<forall>v. valid t v \<longrightarrow> (\<exists>j. unstructure_as up t v = Some j \<and> structure_into t j = Inr v))"

section \<open>Nesting depth of a JSON value\<close>

fun json_depth :: "json \<Rightarrow> nat" where
  "json_depth (JList js) = Suc (foldr max (map json_depth js) 0)"
| "json_depth (JObj m) = Suc (foldr max (map (\<lambda>(k, j). json_depth j) m) 0)"
| "json_depth _ = 0"

fun nested :: "nat \<Rightarrow> json" where
  \<comment> \<open>\<open>n\<close> lists, one inside the other\<close>
  "nested 0 = JList []"
| "nested (Suc n) = JList [nested n]"

section \<open>Where a type is used in the schema\<close>

definition record_classes :: "record_cls list" where
  "record_classes =
     [TxInfo, LogEntry, TxReceipt, BlockInfo, RPCError_cls, Type2Transaction,
      EthCallParams, EstimateGasParams, FilterParams, FilterParamsEIP234]"


fun fields_of :: "ty \<Rightarrow> (string \<times> ty \<times> val option) list" where
  "fields_of (TDataclass c fs) = fs"
| "fields_of _ = []"

definition schema_field_names :: "string list" where
  \<comment> \<open>the names of the fields of all the records\<close>
  "schema_field_names = concat (map (\<lambda>c. map fst (fields_of (schema c))) record_classes)"

section \<open>Sample values\<close>

text \<open>A type-2 transaction on the wire, with the discriminator \<open>t\<close>, and as a domain value.\<close>

definition tx2_json :: "string \<Rightarrow> json" where
  "tx2_json t = JObj
     [(''type'', JStr t), (''chainId'', JStr ''0x1''), (''value'', JStr ''0x0''), (''gas'', JStr ''0xff''),
      (''maxFeePerGas'', JStr ''0x10''), (''maxPriorityFeePerGas'', JStr ''0x1''), (''nonce'', JStr ''0x0'')]"

definition tx2_val :: val where
  "tx2_val = VRecord Type2Transaction
     [(''chain_id'', VInt 1), (''value'', VAmount 0), (''gas'', VInt 255),
      (''max_fee_per_gas'', VAmount 16), (''max_priority_fee_per_gas'', VAmount 1), (''nonce'', VInt 0),
      (''to'', VNone), (''data'', VNone)]"


section \<open>Properties of the field-name translation\<close>

lemma py_lower_id: "\<not> is_upper c \<Longrightarrow> py_lower c = c"
  by (auto simp: py_lower_def is_upper_def Let_def)

lemma capitalize_no_upper: "list_all (\<lambda>c. \<not> is_upper c) s \<Longrightarrow> capitalize s = capitalize_spec s"
  by (cases s) (auto simp: capitalize_def capitalize_spec_def py_lower_id list_all_iff intro: map_idI)

lemma split_on_chars: "p \<in> set (split_on sep s) \<Longrightarrow> set p \<subseteq> set s"
proof (induction s arbitrary: p)
  case Nil
  then show ?case by simp
next
  case (Cons c cs)
  show ?case
  proof (cases "split_on sep cs")
    case Nil
    with Cons.prems show ?thesis by (auto split: if_splits)
  next
    case (Cons q qs)
    have q: "set q \<subseteq> set cs" using Cons.IH [of q] Cons by simp
    have qs: "r \<in> set qs \<Longrightarrow> set r \<subseteq> set cs" for r using Cons.IH [of r] Cons by simp
    from Cons.prems Cons q qs show ?thesis
      by (fastforce split: if_splits)
  qed
qed

lemma split_on_nonempty: "split_on sep s \<noteq> []"
  by (induction s) (auto split: list.splits)

lemma removesuffix_underscore:
  "removesuffix name ''_'' = (if name \<noteq> [] \<and> last name = CHR ''_'' then butlast name else name)"
  by (cases name rule: rev_cases) (simp_all add: removesuffix_def)

lemma to_camel_case_parts:
  assumes "split_on CHR ''_'' (if name \<noteq> [] \<and> last name = CHR ''_'' then butlast name else name) = p # ps"
  shows "to_camel_case name = p @ concat (map capitalize ps)"
  using assms by (simp add: to_camel_case_def removesuffix_underscore del: split_on.simps)

lemma to_camel_case_is_spec:
  assumes "list_all (\<lambda>c. \<not> is_upper c) name"
  shows "to_camel_case name = wire_name_spec name"
proof -
  define nm where "nm = (if name \<noteq> [] \<and> last name = CHR ''_'' then butlast name else name)"
  have sub: "set nm \<subseteq> set name"
    by (auto simp: nm_def dest: in_set_butlastD)
  obtain p ps where ps: "split_on CHR ''_'' nm = p # ps"
    using split_on_nonempty [of "CHR ''_''" nm] by (cases "split_on CHR ''_'' nm") auto
  have "capitalize q = capitalize_spec q" if "q \<in> set ps" for q
  proof -
    have "q \<in> set (split_on CHR ''_'' nm)" using that ps by simp
    then have "set q \<subseteq> set name" using split_on_chars sub by blast
    with assms have "list_all (\<lambda>c. \<not> is_upper c) q" by (auto simp: list_all_iff)
    then show ?thesis by (rule capitalize_no_upper)
  qed
  then have m: "map capitalize ps = map capitalize_spec ps"
    by (intro map_cong refl)
  have "to_camel_case name = p @ concat (map capitalize ps)"
    using ps unfolding nm_def by (rule to_camel_case_parts)
  also have "\<dots> = wire_name_spec name"
    by (simp add: wire_name_spec_def nm_def [symmetric] ps m del: split_on.simps)
  finally show ?thesis .
qed

lemma domain_field_name_no_upper:
  "domain_field_name name \<Longrightarrow> list_all (\<lambda>c. \<not> is_upper c) name"
  by (simp add: domain_field_name_def list_all_iff)

text \<open>
  Claim C5.  For every domain field name, a name in snake case, the wire name is computed
  by stripping a single trailing underscore if present, splitting the remainder on
  underscores, and concatenating the first segment unchanged with each subsequent segment
  capitalized (first letter upper, rest unchanged) with no separator.  Every field name of
  the schema is such a name.  \<open>max_fee_per_gas\<close> becomes \<open>maxFeePerGas\<close> and \<open>from_\<close> becomes
  \<open>from\<close>, and the structurer and the unstructurer look a field \<open>f\<close> of a dataclass up and
  store it under the same key \<open>to_camel_case f\<close>.
\<close>

theorem wire_name_rule:
  "(domain_field_name name \<longrightarrow> to_camel_case name = wire_name_spec name)
   \<and> list_all domain_field_name schema_field_names
   \<and> to_camel_case ''max_fee_per_gas'' = ''maxFeePerGas''
   \<and> to_camel_case ''from_'' = ''from''
   \<and> structure_into (TDataclass LogEntry [(f, TStr, None)]) (JObj [(k, JStr s)]) =
       (if k = to_camel_case f then Inr (VRecord LogEntry [(f, VStr s)]) else Inl (MissingField f))
   \<and> unstructure_as up (TDataclass LogEntry [(f, TStr, None)]) (VRecord LogEntry [(f, VStr s)]) =
       Some (JObj [(to_camel_case f, JStr s)])"
proof (intro conjI)
  show "domain_field_name name \<longrightarrow> to_camel_case name = wire_name_spec name"
    using to_camel_case_is_spec domain_field_name_no_upper by blast
  show "list_all domain_field_name schema_field_names"
    by code_simp
  show "to_camel_case ''max_fee_per_gas'' = ''maxFeePerGas''"
    by code_simp
  show "to_camel_case ''from_'' = ''from''"
    by code_simp
  show "structure_into (TDataclass LogEntry [(f, TStr, None)]) (JObj [(k, JStr s)]) =
     (if k = to_camel_case f then Inr (VRecord LogEntry [(f, VStr s)]) else Inl (MissingField f))"
    by (simp add: IntoDataclassFromMapping_def IntoStr_def)
  show "unstructure_as up (TDataclass LogEntry [(f, TStr, None)]) (VRecord LogEntry [(f, VStr s)]) =
     Some (JObj [(to_camel_case f, JStr s)])"
    by (simp add: AsDataclassToDict_def AsStr_def dict_of_items_def)
qed

theorem wire_name_rule_witness:
  "domain_field_name ''block_hash'' \<and> to_camel_case ''block_hash'' = wire_name_spec ''block_hash''
   \<and> wire_name_spec ''block_hash'' = ''blockHash''"
proof -
  have h: "domain_field_name ''block_hash''" by code_simp
  have w: "wire_name_spec ''block_hash'' = ''blockHash''" by code_simp
  from wire_name_rule [of "''block_hash''", THEN conjunct1] h
  have "to_camel_case ''block_hash'' = wire_name_spec ''block_hash''" by (rule mp)
  with h w show ?thesis by (intro conjI)
qed

text \<open>
  Outside the domain field names the two differ: \<open>capitalize\<close> puts the other letters of a
  segment in lower case, so for \<open>a_bC\<close>, which is not in snake case, the code gives \<open>aBc\<close>.
\<close>

lemma capitalize_lowers_rest:
  "\<not> domain_field_name ''a_bC'' \<and> to_camel_case ''a_bC'' = ''aBc'' \<and> wire_name_spec ''a_bC'' = ''aBC''"
  by code_simp

section \<open>Properties of the hex codec\<close>

lemma hex_val_hexdigit: "d < 16 \<Longrightarrow> hex_val (hexdigit d) = Some d"
  by (auto simp: hex_val_def hexdigit_def)

lemma hex_val_cased: "d < 16 \<Longrightarrow> hex_val (cased u (hexdigit d)) = Some d"
  by (auto simp: hex_val_def hexdigit_def cased_def py_upper_def Let_def)

lemma not_space_cased: "d < 16 \<Longrightarrow> \<not> bytes_space (cased u (hexdigit d))"
  by (auto simp: bytes_space_def hexdigit_def cased_def py_upper_def Let_def)

lemma of_char_hexdigit: "d < 16 \<Longrightarrow> (of_char (hexdigit d) :: nat) = (if d < 10 then 48 + d else 87 + d)"
  by (simp add: hexdigit_def)

lemma hexdigit_plain:
  assumes "d < 16"
  shows "is_hex (hexdigit d) \<and> hexdigit d \<noteq> CHR ''_'' \<and> \<not> int_space (hexdigit d)"
proof -
  have "hexdigit d \<noteq> CHR ''_''"
  proof
    assume "hexdigit d = CHR ''_''"
    then have "(of_char (hexdigit d) :: nat) = of_char CHR ''_''" by simp
    with assms show False by (simp add: of_char_hexdigit split: if_splits)
  qed
  moreover have "is_hex (hexdigit d)"
    using assms by (simp add: is_hex_def hex_val_hexdigit)
  moreover have "\<not> int_space (hexdigit d)"
    using assms by (simp add: int_space_def of_char_hexdigit)
  ultimately show ?thesis by simp
qed

lemma byte_nibbles: "word_of_nat (16 * (unat b div 16) + unat b mod 16) = (b :: byte)"
  by simp

lemma bytes_fromhex_checksum_digits: "bytes_fromhex (checksum_digits u i bs) = Some bs"
proof (induction bs arbitrary: i)
  case Nil
  show ?case by simp
next
  case (Cons b bs)
  have "unat b < 2 ^ LENGTH(8)" by (rule unsigned_less)
  then have "unat b < 256" by simp
  then have hi: "unat b div 16 < 16" by simp
  have lo: "unat b mod 16 < 16" by simp
  show ?case
    using Cons.IH [of "i + 2"] hex_val_cased [OF hi] hex_val_cased [OF lo] not_space_cased [OF hi]
    by (simp add: byte_nibbles del: unsigned_of_nat)
qed

lemma bytes_hex_checksum_digits: "bytes_hex bs = checksum_digits (\<lambda>_. False) i bs"
  by (induction bs arbitrary: i) (simp_all add: bytes_hex_def hex_byte_def cased_def)

lemma bytes_fromhex_bytes_hex: "bytes_fromhex (bytes_hex bs) = Some bs"
  by (simp add: bytes_hex_checksum_digits [of bs 0] bytes_fromhex_checksum_digits)

lemma hex_digits_set: "c \<in> set (hex_digits n) \<Longrightarrow> \<exists>d<16. c = hexdigit d"
proof (induction n rule: hex_digits.induct)
  case (1 n)
  show ?case
  proof (cases "n < 16")
    case True
    with "1.prems" show ?thesis by (subst (asm) hex_digits.simps) auto
  next
    case False
    with "1.prems" have "c \<in> set (hex_digits (n div 16)) \<or> c = hexdigit (n mod 16)"
      by (subst (asm) hex_digits.simps) auto
    then show ?thesis
    proof
      assume "c \<in> set (hex_digits (n div 16))"
      with "1.IH" False show ?thesis by simp
    next
      assume "c = hexdigit (n mod 16)"
      then show ?thesis by (intro exI [of _ "n mod 16"]) simp
    qed
  qed
qed

lemma hex_digits_nonempty: "hex_digits n \<noteq> []"
  by (subst hex_digits.simps) simp

lemma int_of_hex_digits_snoc:
  "int_of_hex_digits (ds @ [c]) = 16 * int_of_hex_digits ds + int (the (hex_val c))"
  by (simp add: int_of_hex_digits_def)

lemma int_of_hex_digits_hex_digits: "int_of_hex_digits (hex_digits n) = int n"
proof (induction n rule: hex_digits.induct)
  case (1 n)
  show ?case
  proof (cases "n < 16")
    case True
    then show ?thesis
      by (subst hex_digits.simps) (simp add: int_of_hex_digits_def hex_val_hexdigit)
  next
    case False
    have "int_of_hex_digits (hex_digits n) =
            16 * int_of_hex_digits (hex_digits (n div 16)) + int (the (hex_val (hexdigit (n mod 16))))"
      using False by (subst hex_digits.simps) (simp add: int_of_hex_digits_snoc)
    also have "\<dots> = 16 * int (n div 16) + int (n mod 16)"
      using "1.IH" False by (simp add: hex_val_hexdigit)
    also have "\<dots> = int (16 * (n div 16) + n mod 16)"
      by (simp only: of_nat_add of_nat_mult of_nat_numeral)
    also have "\<dots> = int n"
      by simp
    finally show ?thesis .
  qed
qed

lemma rstrip_int_id: "s \<noteq> [] \<Longrightarrow> \<not> int_space (last s) \<Longrightarrow> rstrip_int s = s"
  by (cases s rule: rev_cases) (simp_all add: rstrip_int_def)

lemma no_double_underscore_plain: "CHR ''_'' \<notin> set s \<Longrightarrow> no_double_underscore s"
  by (induction s rule: no_double_underscore.induct) auto

lemma py_int_0x_plain:
  assumes ne: "ds \<noteq> []" and all: "\<forall>c\<in>set ds. is_hex c \<and> c \<noteq> CHR ''_'' \<and> \<not> int_space c"
  shows "py_int_0x ds = Some (int_of_hex_digits ds)"
proof -
  have last: "last ds \<in> set ds" and hd: "hd ds \<in> set ds" using ne by simp_all
  have body: "rstrip_int ds = ds" using ne all last by (intro rstrip_int_id) auto
  obtain c cs where ds: "ds = c # cs" using ne by (cases ds) auto
  have c: "c \<noteq> CHR ''_''" using all ds by simp
  have us: "CHR ''_'' \<notin> set ds" using all by auto
  have f: "filter (\<lambda>c. c \<noteq> CHR ''_'') ds = ds" using us by (intro filter_True) auto
  have la: "list_all (\<lambda>c. is_hex c \<or> c = CHR ''_'') ds" using all by (simp add: list_all_iff)
  have "last ds \<noteq> CHR ''_''" "hd ds \<noteq> CHR ''_''" using us last hd by metis+
  then show ?thesis
    unfolding py_int_0x_def body Let_def
    using ne c no_double_underscore_plain [OF us] la f by (simp add: ds)
qed

lemma py_int_0x_hex_digits: "py_int_0x (hex_digits n) = Some (int n)"
proof -
  have "\<forall>c\<in>set (hex_digits n). is_hex c \<and> c \<noteq> CHR ''_'' \<and> \<not> int_space c"
  proof
    fix c assume "c \<in> set (hex_digits n)"
    then obtain d where "d < 16" "c = hexdigit d" using hex_digits_set by blast
    then show "is_hex c \<and> c \<noteq> CHR ''_'' \<and> \<not> int_space c" using hexdigit_plain by simp
  qed
  with hex_digits_nonempty show ?thesis
    by (simp add: py_int_0x_plain int_of_hex_digits_hex_digits)
qed

lemma startswith_0x: "startswith (''0x'' @ s) ''0x''"
  by (simp add: startswith_def)

lemma IntoIntFromHex_int_py_hex: "0 \<le> n \<Longrightarrow> IntoIntFromHex_int (JStr (py_hex n)) = Inr n"
  by (simp add: IntoIntFromHex_int_def py_hex_def startswith_def py_int_0x_hex_digits)

lemma IntoBytesFromHex_bytes_hex: "IntoBytesFromHex_bytes (JStr (''0x'' @ bytes_hex bs)) = Inr bs"
  by (simp add: IntoBytesFromHex_bytes_def startswith_def bytes_fromhex_bytes_hex)

lemma IntoBytesFromHex_bytes_checksum: "IntoBytesFromHex_bytes (JStr (checksum up bs)) = Inr bs"
  by (simp add: IntoBytesFromHex_bytes_def startswith_def checksum_def bytes_fromhex_checksum_digits)

text \<open>
  Claim C3.  For every non-negative integer \<open>n\<close>, structuring the string that unstructuring
  \<open>n\<close> produces, \<open>hex(n)\<close>, returns \<open>n\<close>; for every byte sequence \<open>b\<close>, structuring the string
  that unstructuring \<open>b\<close> produces, \<open>"0x" + b.hex()\<close>, returns \<open>b\<close>.
\<close>

theorem hex_round_trip:
  "(0 \<le> n \<longrightarrow>
      unstructure_as up TInt (VInt n) = Some (JStr (py_hex n))
      \<and> structure_into TInt (JStr (py_hex n)) = Inr (VInt n)
      \<and> IntoIntFromHex_int (JStr (py_hex n)) = Inr n)
   \<and> unstructure_as up TBytes (VBytes b) = Some (JStr (''0x'' @ bytes_hex b))
   \<and> structure_into TBytes (JStr (''0x'' @ bytes_hex b)) = Inr (VBytes b)
   \<and> IntoBytesFromHex_bytes (JStr (''0x'' @ bytes_hex b)) = Inr b"
  using IntoBytesFromHex_bytes_hex [of b]
  by (simp add: IntoIntFromHex_def AsIntToHex_def IntoIntFromHex_int_py_hex
        IntoBytesFromHex_def AsBytesToHex_def)

theorem hex_round_trip_witness:
  "(0::int) \<le> 255 \<and> py_hex 255 = ''0xff'' \<and> structure_into TInt (JStr ''0xff'') = Inr (VInt 255)
   \<and> bytes_hex [18, 171] = ''12ab'' \<and> structure_into TBytes (JStr ''0x12ab'') = Inr (VBytes [18, 171])"
proof -
  have h: "py_hex 255 = ''0xff''" by code_simp
  have b: "bytes_hex [18, 171] = ''12ab''" by code_simp
  from hex_round_trip [of 255 up "[18, 171]"] h b show ?thesis by simp
qed

text \<open>
  Claim C2 at the inputs where the code leaves it.  Structuring \<open>"0x"\<close> or \<open>"0xzz"\<close> into
  \<open>int\<close> ends in the \<open>ValueError\<close> of \<open>int(val, 0)\<close>, which is no \<open>StructuringError\<close>; the
  handler for \<open>bytes\<close> wraps the \<open>ValueError\<close> of \<open>bytes.fromhex\<close> on the same text.  The
  built-ins also accept more than digits: an underscore between digits and white space at
  the end for \<open>int\<close>, white space between bytes for \<open>bytes\<close>.
\<close>

theorem int_from_hex_bare_value_error:
  "IntoIntFromHex_int (JStr ''0x'') = Inl BareValueError
   \<and> IntoIntFromHex_int (JStr ''0xzz'') = Inl BareValueError
   \<and> structure_into TInt (JStr ''0x'') = Inl BareValueError
   \<and> \<not> is_StructuringError BareValueError
   \<and> IntoBytesFromHex_bytes (JStr ''0xzz'') = Inl FromHexFailed
   \<and> IntoBytesFromHex_bytes (JStr ''0x123'') = Inl FromHexFailed
   \<and> is_StructuringError FromHexFailed
   \<and> IntoIntFromHex_int (JStr ''0x1_0'') = Inr 16
   \<and> IntoIntFromHex_int (JStr ''0x1 '') = Inr 1
   \<and> IntoBytesFromHex_bytes (JStr ''0x12 34'') = Inr [18, 52]"
  by code_simp

section \<open>Properties of the RPC error code\<close>

text \<open>
  Claim C8.  \<open>parsed_code\<close> returns the member of \<open>RPCErrorCode\<close> whose value is the code
  when the code is one of -32000, -32600, -32601, -32602 and 3, and \<open>None\<close> for every other
  code; being a total function with the \<open>ValueError\<close> of the lookup turned into \<open>None\<close>, it
  never fails.
\<close>

theorem parsed_code_known_or_none:
  "parsed_code e =
     (if code e = - 32000 then Some SERVER_ERROR
      else if code e = - 32600 then Some INVALID_REQUEST
      else if code e = - 32601 then Some METHOD_NOT_FOUND
      else if code e = - 32602 then Some INVALID_PARAMETER
      else if code e = 3 then Some EXECUTION_ERROR
      else None)
   \<and> (code e \<notin> {- 32000, - 32600, - 32601, - 32602, 3} \<longrightarrow> parsed_code e = None)
   \<and> (code e \<in> {- 32000, - 32600, - 32601, - 32602, 3} \<longrightarrow>
        (\<exists>m. parsed_code e = Some m \<and> RPCErrorCode_value m = code e))"
  by (simp add: parsed_code_def RPCErrorCode_lookup_def RPCErrorCode_members_def)

theorem parsed_code_known_or_none_witness:
  "code \<lparr>code = 7, message = ''x'', data = None\<rparr> \<notin> {- 32000, - 32600, - 32601, - 32602, 3}
   \<and> parsed_code \<lparr>code = 7, message = ''x'', data = None\<rparr> = None
   \<and> code \<lparr>code = - 32602, message = ''x'', data = None\<rparr> \<in> {- 32000, - 32600, - 32601, - 32602, 3}
   \<and> parsed_code \<lparr>code = - 32602, message = ''x'', data = None\<rparr> = Some INVALID_PARAMETER"
  using parsed_code_known_or_none [of "\<lparr>code = 7, message = ''x'', data = None\<rparr>"]
    parsed_code_known_or_none [of "\<lparr>code = - 32602, message = ''x'', data = None\<rparr>"]
  by simp

text \<open>
  Claim C10.  For every member \<open>c\<close> of \<open>RPCErrorCode\<close>, every message and every optional data,
  \<open>RPCError.with_code(c, m, d)\<close> has the code \<open>c.value\<close> and its \<open>parsed_code\<close> is \<open>c\<close>.
\<close>

theorem with_code_parsed_code:
  "code (with_code c m d) = RPCErrorCode_value c \<and> parsed_code (with_code c m d) = Some c"
  by (cases c) (simp_all add: with_code_def parsed_code_def RPCErrorCode_lookup_def RPCErrorCode_members_def)

theorem with_code_parsed_code_witness:
  "code (with_code EXECUTION_ERROR ''reverted'' (Some [1, 2])) = 3
   \<and> parsed_code (with_code EXECUTION_ERROR ''reverted'' (Some [1, 2])) = Some EXECUTION_ERROR"
  using with_code_parsed_code [of EXECUTION_ERROR "''reverted''" "Some [1, 2]"] by simp

section \<open>Properties of the value types\<close>

text \<open>
  Claim C7.  Constructing a fixed-length binary value from a byte sequence, or structuring it
  from the hex text of one, fails with a \<open>ValidationError\<close> when the length differs from the
  constant of the type and succeeds when it is that constant: 32 for \<open>LogTopic\<close>, \<open>BlockHash\<close>,
  \<open>TxHash\<close>, \<open>TrieHash\<close> and \<open>UnclesHash\<close>, 8 for \<open>BlockNonce\<close>, 256 for \<open>LogsBloom\<close>.
\<close>

theorem fixed_length_construct:
  "(length bs \<noteq> data_length c \<longrightarrow>
      TypedData_init c bs = Inl ValidationError
      \<and> structure_into (TData c) (JStr (''0x'' @ bytes_hex bs)) = Inl ValidationError)
   \<and> (length bs = data_length c \<longrightarrow>
      TypedData_init c bs = Inr (VData c bs)
      \<and> structure_into (TData c) (JStr (''0x'' @ bytes_hex bs)) = Inr (VData c bs))
   \<and> data_length LogTopic = 32 \<and> data_length BlockHash = 32 \<and> data_length TxHash = 32
   \<and> data_length TrieHash = 32 \<and> data_length UnclesHash = 32
   \<and> data_length BlockNonce = 8 \<and> data_length LogsBloom = 256"
  using IntoBytesFromHex_bytes_hex [of bs]
  by (simp add: TypedData_init_def IntoTypedData_def)

theorem fixed_length_construct_witness:
  "length (replicate 8 (0 :: byte)) = data_length BlockNonce
   \<and> structure_into (TData BlockNonce) (JStr (''0x'' @ bytes_hex (replicate 8 0))) = Inr (VData BlockNonce (replicate 8 0))
   \<and> length (replicate 7 (0 :: byte)) \<noteq> data_length BlockNonce
   \<and> structure_into (TData BlockNonce) (JStr (''0x'' @ bytes_hex (replicate 7 0))) = Inl ValidationError"
  using fixed_length_construct [of "replicate 8 0" BlockNonce] fixed_length_construct [of "replicate 7 0" BlockNonce]
  by simp

section \<open>Properties of the typed-transaction handlers\<close>

lemma structure_into_Type2:
  "structure_into (TDataclass Type2Transaction fs) =
     IntoTypedTx 2 IntoIntFromHex_int
       (IntoDataclassFromMapping to_camel_case Type2Transaction (map (\<lambda>(f, t, d). (f, structure_into t, d)) fs))"
  by simp

lemma IntoTypedTx_mismatch:
  "map_of m ''type'' = Some t \<Longrightarrow> h t = Inr n \<Longrightarrow> n \<noteq> k \<Longrightarrow>
     IntoTypedTx k h next_handler (JObj m) = Inl (TxTypeMismatch k n)"
  by (simp add: IntoTypedTx_def)

lemma IntoTypedTx_match:
  "map_of m ''type'' = Some t \<Longrightarrow> h t = Inr k \<Longrightarrow>
     IntoTypedTx k h next_handler (JObj m) = next_handler (JObj m)"
  by (simp add: IntoTypedTx_def)


lemma AsTypedTx_2:
  "AsTypedTx 2 as_next v =
     (case as_next v of
        Some (JObj tx_dict) \<Rightarrow> Some (JObj (AList.update ''type'' (JStr ''0x2'') tx_dict))
      | _ \<Rightarrow> None)"
proof -
  have hex2: "py_hex 2 = ''0x2''" by code_simp
  show ?thesis
    by (simp add: AsTypedTx_def AsIntToHex_def hex2 split: option.splits json.splits)
qed

text \<open>
  Claim C4.  Structuring a mapping into \<open>Type2Transaction\<close> needs a \<open>type\<close> key; its value is
  structured as a hex integer first, and a value other than 2 ends in the mismatch error
  whatever the handler of the record would do, so no other field is structured before.
  With \<open>"type": "0x1"\<close> structuring fails; with \<open>"type": "0x2"\<close> the check passes and the
  result is that of the record handler, a success on a complete mapping.  Unstructuring
  builds the mapping of the record first and then stores \<open>"type": "0x2"\<close> in it.
\<close>

theorem typed_tx_discriminator:
  "(map_of m ''type'' = None \<longrightarrow>
      IntoTypedTx 2 IntoIntFromHex_int next_handler (JObj m) = Inl TxTypeMissing)
   \<and> (map_of m ''type'' = Some t \<and> IntoIntFromHex_int t = Inr n \<and> n \<noteq> 2 \<longrightarrow>
      IntoTypedTx 2 IntoIntFromHex_int next_handler (JObj m) = Inl (TxTypeMismatch 2 n))
   \<and> (map_of m ''type'' = Some (JStr ''0x1'') \<longrightarrow>
      structure_into Type2Transaction_ty (JObj m) = Inl (TxTypeMismatch 2 1))
   \<and> (map_of m ''type'' = Some (JStr ''0x2'') \<longrightarrow>
      IntoTypedTx 2 IntoIntFromHex_int next_handler (JObj m) = next_handler (JObj m))
   \<and> structure_into Type2Transaction_ty (tx2_json ''0x2'') = Inr tx2_val
   \<and> AsTypedTx 2 as_next v =
       (case as_next v of
          Some (JObj tx_dict) \<Rightarrow> Some (JObj (AList.update ''type'' (JStr ''0x2'') tx_dict))
        | _ \<Rightarrow> None)
   \<and> unstructure_as up Type2Transaction_ty tx2_val = Some (JObj
       [(''chainId'', JStr ''0x1''), (''value'', JStr ''0x0''), (''gas'', JStr ''0xff''),
        (''maxFeePerGas'', JStr ''0x10''), (''maxPriorityFeePerGas'', JStr ''0x1''),
        (''nonce'', JStr ''0x0''), (''to'', JNull), (''data'', JNull), (''type'', JStr ''0x2'')])"
proof (intro conjI impI)
  have one: "IntoIntFromHex_int (JStr ''0x1'') = Inr 1" by code_simp
  have two: "IntoIntFromHex_int (JStr ''0x2'') = Inr 2" by code_simp
  show "IntoTypedTx 2 IntoIntFromHex_int next_handler (JObj m) = Inl TxTypeMissing"
    if "map_of m ''type'' = None"
    using that by (simp add: IntoTypedTx_def)
  show "IntoTypedTx 2 IntoIntFromHex_int next_handler (JObj m) = Inl (TxTypeMismatch 2 n)"
    if "map_of m ''type'' = Some t \<and> IntoIntFromHex_int t = Inr n \<and> n \<noteq> 2"
    using that by (simp add: IntoTypedTx_def)
  show "structure_into Type2Transaction_ty (JObj m) = Inl (TxTypeMismatch 2 1)"
    if "map_of m ''type'' = Some (JStr ''0x1'')"
    unfolding Type2Transaction_ty_def structure_into_Type2
    by (rule IntoTypedTx_mismatch [where h = IntoIntFromHex_int, OF that one]) simp
  show "IntoTypedTx 2 IntoIntFromHex_int next_handler (JObj m) = next_handler (JObj m)"
    if "map_of m ''type'' = Some (JStr ''0x2'')"
    by (rule IntoTypedTx_match [where h = IntoIntFromHex_int, OF that two])
  show "structure_into Type2Transaction_ty (tx2_json ''0x2'') = Inr tx2_val"
    by code_simp
  show "AsTypedTx 2 as_next v =
       (case as_next v of
          Some (JObj tx_dict) \<Rightarrow> Some (JObj (AList.update ''type'' (JStr ''0x2'') tx_dict))
        | _ \<Rightarrow> None)"
    by (rule AsTypedTx_2)
  show "unstructure_as up Type2Transaction_ty tx2_val = Some (JObj
       [(''chainId'', JStr ''0x1''), (''value'', JStr ''0x0''), (''gas'', JStr ''0xff''),
        (''maxFeePerGas'', JStr ''0x10''), (''maxPriorityFeePerGas'', JStr ''0x1''),
        (''nonce'', JStr ''0x0''), (''to'', JNull), (''data'', JNull), (''type'', JStr ''0x2'')])"
    by code_simp
qed

theorem typed_tx_discriminator_witness:
  "map_of [(''type'', JStr ''0x1''), (''chainId'', JInt 5)] ''type'' = Some (JStr ''0x1'')
   \<and> structure_into Type2Transaction_ty (JObj [(''type'', JStr ''0x1''), (''chainId'', JInt 5)])
       = Inl (TxTypeMismatch 2 1)
   \<and> map_of [(''chainId'', JStr ''0x1'')] ''type'' = None
   \<and> IntoTypedTx 2 IntoIntFromHex_int (\<lambda>j. Inr VNone) (JObj [(''chainId'', JStr ''0x1'')]) = Inl TxTypeMissing
   \<and> map_of [(''type'', JStr ''0x2'')] ''type'' = Some (JStr ''0x2'')
   \<and> IntoTypedTx 2 IntoIntFromHex_int (\<lambda>j. Inr VNone) (JObj [(''type'', JStr ''0x2'')]) = Inr VNone"
  using typed_tx_discriminator [of "[(''type'', JStr ''0x1''), (''chainId'', JInt 5)]"]
    typed_tx_discriminator [of "[(''chainId'', JStr ''0x1'')]" "\<lambda>j. Inr VNone"]
    typed_tx_discriminator [of "[(''type'', JStr ''0x2'')]" "\<lambda>j. Inr VNone"]
  by simp

section \<open>Round trip of the records\<close>

lemma update_fresh: "k \<notin> fst ` set al \<Longrightarrow> AList.update k v al = al @ [(k, v)]"
  by (induction al) auto

lemma foldl_update_distinct:
  "distinct (map fst (acc @ items)) \<Longrightarrow>
     foldl (\<lambda>result (k, j). AList.update k j result) acc items = acc @ items"
proof (induction items arbitrary: acc)
  case Nil
  then show ?case by simp
next
  case (Cons p items)
  obtain k j where p: "p = (k, j)" by (cases p)
  from Cons.prems have fresh: "k \<notin> fst ` set acc" by (auto simp: p)
  from Cons.prems have "distinct (map fst ((acc @ [(k, j)]) @ items))" by (simp add: p)
  from Cons.IH [OF this] show ?case by (simp add: p update_fresh [OF fresh])
qed

lemma dict_of_items_distinct: "distinct (map fst items) \<Longrightarrow> dict_of_items items = items"
  using foldl_update_distinct [of "[]" items] by (simp add: dict_of_items_def)

lemma unstructure_fields_nth:
  "length js = length us \<Longrightarrow>
   (\<forall>i<length us. \<exists>x. map_of attrs (fst (us ! i)) = Some x \<and> snd (us ! i) x = Some (js ! i)) \<Longrightarrow>
   unstructure_fields nm us attrs = Some (zip (map (\<lambda>u. nm (fst u)) us) js)"
proof (induction us arbitrary: js)
  case Nil
  then show ?case by simp
next
  case (Cons u us)
  then obtain j js' where js: "js = j # js'" by (cases js) auto
  obtain f h where u: "u = (f, h)" by (cases u)
  from Cons.prems(2) [rule_format, of 0] obtain x where x: "map_of attrs f = Some x" "h x = Some j"
    by (auto simp: u js)
  have "\<forall>i<length us. \<exists>x. map_of attrs (fst (us ! i)) = Some x \<and> snd (us ! i) x = Some (js' ! i)"
  proof (intro allI impI)
    fix i assume "i < length us"
    with Cons.prems(2) [rule_format, of "Suc i"] show "\<exists>x. map_of attrs (fst (us ! i)) = Some x \<and> snd (us ! i) x = Some (js' ! i)"
      by (simp add: js)
  qed
  with Cons.IH [of js'] Cons.prems(1) have "unstructure_fields nm us attrs = Some (zip (map (\<lambda>u. nm (fst u)) us) js')"
    by (simp add: js)
  with x show ?case by (simp add: u js)
qed

lemma structure_fields_nth:
  "length xs = length ss \<Longrightarrow>
   (\<forall>i<length ss. \<exists>j. map_of m (nm (fst (ss ! i))) = Some j \<and> fst (snd (ss ! i)) j = Inr (xs ! i)) \<Longrightarrow>
   structure_fields nm ss m = Inr (zip (map fst ss) xs)"
proof (induction ss arbitrary: xs)
  case Nil
  then show ?case by simp
next
  case (Cons s ss)
  then obtain x xs' where xs: "xs = x # xs'" by (cases xs) auto
  obtain f h d where s: "s = (f, h, d)" by (cases s)
  from Cons.prems(2) [rule_format, of 0] obtain j where j: "map_of m (nm f) = Some j" "h j = Inr x"
    by (auto simp: s xs)
  have "\<forall>i<length ss. \<exists>j. map_of m (nm (fst (ss ! i))) = Some j \<and> fst (snd (ss ! i)) j = Inr (xs' ! i)"
  proof (intro allI impI)
    fix i assume "i < length ss"
    with Cons.prems(2) [rule_format, of "Suc i"] show "\<exists>j. map_of m (nm (fst (ss ! i))) = Some j \<and> fst (snd (ss ! i)) j = Inr (xs' ! i)"
      by (simp add: xs)
  qed
  with Cons.IH [of xs'] Cons.prems(1) have "structure_fields nm ss m = Inr (zip (map fst ss) xs')"
    by (simp add: xs)
  with j show ?case by (simp add: s xs)
qed

lemma fields_round_trip:
  assumes val: "list_all2 (\<lambda>(f, t, d) (f', x). f' = f \<and> valid t x) fs attrs"
      and rt: "\<forall>ft \<in> set fs. round_trips up (fst (snd ft))"
      and dist: "distinct (map (\<lambda>ft. nm (fst ft)) fs)"
  shows "\<exists>items. unstructure_fields nm (map (\<lambda>(f, t, d). (f, unstructure_as up t)) fs) attrs = Some items
            \<and> map fst items = map (\<lambda>ft. nm (fst ft)) fs
            \<and> (\<forall>m. (\<forall>k \<in> set (map fst items). map_of m k = map_of items k) \<longrightarrow>
                  structure_fields nm (map (\<lambda>(f, t, d). (f, structure_into t, d)) fs) m = Inr attrs)"
proof -
  define n where "n = length fs"
  define xs where "xs = map snd attrs"
  define keys where "keys = map (\<lambda>ft. nm (fst ft)) fs"
  have len: "length attrs = n" using val by (simp add: n_def list_all2_lengthD)
  have nth_val: "fst (attrs ! i) = fst (fs ! i) \<and> valid (fst (snd (fs ! i))) (snd (attrs ! i))" if "i < n" for i
    using val that by (auto simp: list_all2_conv_all_nth n_def split_beta)
  have names: "map fst attrs = map fst fs"
    using len nth_val by (auto simp: list_eq_iff_nth_eq n_def)
  have attrs_zip: "attrs = zip (map fst fs) xs"
    unfolding xs_def names [symmetric] by (simp add: zip_map_fst_snd)
  have "map (\<lambda>ft. nm (fst ft)) fs = map nm (map fst fs)" by simp
  with dist have "distinct (map nm (map fst fs))" by (simp only:)
  then have dnames: "distinct (map fst fs)" by (rule distinct_map [THEN iffD1, THEN conjunct1])
  have "\<forall>i<n. \<exists>j. unstructure_as up (fst (snd (fs ! i))) (xs ! i) = Some j
                     \<and> structure_into (fst (snd (fs ! i))) j = Inr (xs ! i)"
  proof (intro allI impI)
    fix i assume i: "i < n"
    then have "fs ! i \<in> set fs" by (simp add: n_def)
    with rt have "round_trips up (fst (snd (fs ! i)))" by blast
    moreover have "valid (fst (snd (fs ! i))) (xs ! i)" using nth_val [OF i] i len by (simp add: xs_def)
    ultimately show "\<exists>j. unstructure_as up (fst (snd (fs ! i))) (xs ! i) = Some j
                     \<and> structure_into (fst (snd (fs ! i))) j = Inr (xs ! i)"
      by (simp add: round_trips_def)
  qed
  then obtain js where js: "length js = n"
      "\<forall>i<n. unstructure_as up (fst (snd (fs ! i))) (xs ! i) = Some (js ! i)
               \<and> structure_into (fst (snd (fs ! i))) (js ! i) = Inr (xs ! i)"
    unfolding Skolem_list_nth by blast
  define items where "items = zip keys js"
  have lk: "length keys = n" by (simp add: keys_def n_def)
  have lx: "length xs = n" by (simp add: xs_def len)
  have attr_nth: "map_of attrs (fst (fs ! i)) = Some (xs ! i)" if "i < n" for i
  proof -
    have "map_of (zip (map fst fs) xs) (map fst fs ! i) = Some (xs ! i)"
      using that lx dnames by (intro map_of_zip_nth) (simp_all add: n_def)
    then show ?thesis using that by (simp add: attrs_zip [symmetric] n_def)
  qed
  have item_nth: "map_of items (nm (fst (fs ! i))) = Some (js ! i)" if "i < n" for i
  proof -
    have "map_of (zip keys js) (keys ! i) = Some (js ! i)"
      using that lk js(1) dist by (intro map_of_zip_nth) (simp_all add: keys_def)
    then show ?thesis using that by (simp add: items_def keys_def n_def)
  qed
  have un: "unstructure_fields nm (map (\<lambda>(f, t, d). (f, unstructure_as up t)) fs) attrs = Some items"
  proof -
    let ?us = "map (\<lambda>(f, t, d). (f, unstructure_as up t)) fs"
    have "unstructure_fields nm ?us attrs = Some (zip (map (\<lambda>u. nm (fst u)) ?us) js)"
    proof (rule unstructure_fields_nth)
      show "length js = length ?us" using js(1) by (simp add: n_def)
      show "\<forall>i<length ?us. \<exists>x. map_of attrs (fst (?us ! i)) = Some x \<and> snd (?us ! i) x = Some (js ! i)"
        using attr_nth js(2) by (auto simp: n_def split_beta)
    qed
    moreover have "map (\<lambda>u. nm (fst u)) ?us = keys"
      by (simp add: keys_def split_beta comp_def)
    ultimately show ?thesis by (simp add: items_def)
  qed
  have fst_items: "map fst items = keys"
    using lk js(1) by (simp add: items_def)
  have st: "structure_fields nm (map (\<lambda>(f, t, d). (f, structure_into t, d)) fs) m = Inr attrs"
    if m: "\<forall>k \<in> set (map fst items). map_of m k = map_of items k" for m
  proof -
    let ?ss = "map (\<lambda>(f, t, d). (f, structure_into t, d)) fs"
    have "structure_fields nm ?ss m = Inr (zip (map fst ?ss) xs)"
    proof (rule structure_fields_nth)
      show "length xs = length ?ss" using lx by (simp add: n_def)
      show "\<forall>i<length ?ss. \<exists>j. map_of m (nm (fst (?ss ! i))) = Some j \<and> fst (snd (?ss ! i)) j = Inr (xs ! i)"
      proof (intro allI impI)
        fix i assume "i < length ?ss"
        then have i: "i < n" by (simp add: n_def)
        then have "nm (fst (fs ! i)) \<in> set (map fst items)"
          unfolding fst_items keys_def using i by (auto simp: n_def)
        with m have "map_of m (nm (fst (fs ! i))) = map_of items (nm (fst (fs ! i)))" by blast
        with item_nth [OF i] js(2) i
        show "\<exists>j. map_of m (nm (fst (?ss ! i))) = Some j \<and> fst (snd (?ss ! i)) j = Inr (xs ! i)"
          by (simp add: n_def split_beta)
      qed
    qed
    moreover have "map fst ?ss = map fst fs" by (simp add: split_beta comp_def)
    ultimately have "structure_fields nm ?ss m = Inr (zip (map fst fs) xs)" by (simp only:)
    then show ?thesis by (simp only: attrs_zip [symmetric])
  qed
  from un fst_items st show ?thesis unfolding keys_def by blast
qed

lemma valid_instance_of: "valid t v \<Longrightarrow> instance_of t v"
proof (induction t arbitrary: v)
  case TInt
  then show ?case by (cases v) simp_all
next
  case TStr
  then show ?case by (cases v) simp_all
next
  case TBool
  then show ?case by (cases v) simp_all
next
  case TBytes
  then show ?case by (cases v) simp_all
next
  case TNone
  then show ?case by simp
next
  case TErrorCode
  then show ?case by (cases v) simp_all
next
  case TBlockLabel
  then show ?case by (cases v) simp_all
next
  case (TData c)
  then show ?case by (cases v) simp_all
next
  case TAmount
  then show ?case by (cases v) simp_all
next
  case (TTupleOf t)
  then show ?case by (cases v) (auto simp: list_all_iff)
next
  case (TUnion ts)
  then show ?case by (auto simp: list_ex_iff)
next
  case (TDataclass c fs)
  then show ?case by (cases v) auto
qed

lemma structure_into_dataclass:
  "c \<noteq> Type2Transaction \<Longrightarrow>
   structure_into (TDataclass c fs) =
     IntoDataclassFromMapping to_camel_case c (map (\<lambda>(f, t, d). (f, structure_into t, d)) fs)"
  by simp

lemma unstructure_as_dataclass:
  "c \<noteq> Type2Transaction \<Longrightarrow>
   unstructure_as up (TDataclass c fs) =
     AsDataclassToDict to_camel_case c (map (\<lambda>(f, t, d). (f, unstructure_as up t)) fs)"
  by simp

lemma unstructure_as_Type2:
  "unstructure_as up (TDataclass Type2Transaction fs) =
     AsTypedTx 2 (AsDataclassToDict to_camel_case Type2Transaction (map (\<lambda>(f, t, d). (f, unstructure_as up t)) fs))"
  by simp

lemma valid_dataclassE:
  assumes "valid (TDataclass c fs) v"
  obtains attrs where "v = VRecord c attrs" "list_all2 (\<lambda>(f, t, d) (f', x). f' = f \<and> valid t x) fs attrs"
  using assms by (cases v) auto

lemma dataclass_round_trip:
  assumes rt: "\<forall>ft \<in> set fs. round_trips up (fst (snd ft))"
      and dist: "distinct (map (\<lambda>ft. to_camel_case (fst ft)) fs)"
      and c: "c \<noteq> Type2Transaction"
  shows "round_trips up (TDataclass c fs)"
  unfolding round_trips_def
proof (intro allI impI)
  fix v assume "valid (TDataclass c fs) v"
  then obtain attrs where v: "v = VRecord c attrs"
    and val: "list_all2 (\<lambda>(f, t, d) (f', x). f' = f \<and> valid t x) fs attrs"
    by (rule valid_dataclassE)
  from fields_round_trip [OF val rt dist] obtain items where
    un: "unstructure_fields to_camel_case (map (\<lambda>(f, t, d). (f, unstructure_as up t)) fs) attrs = Some items"
    and keys: "map fst items = map (\<lambda>ft. to_camel_case (fst ft)) fs"
    and st: "\<And>m. \<forall>k \<in> set (map fst items). map_of m k = map_of items k \<Longrightarrow>
               structure_fields to_camel_case (map (\<lambda>(f, t, d). (f, structure_into t, d)) fs) m = Inr attrs"
    by blast
  have d: "dict_of_items items = items"
    using dist keys by (intro dict_of_items_distinct) simp
  have "unstructure_as up (TDataclass c fs) v = Some (JObj items)"
    unfolding unstructure_as_dataclass [OF c] by (simp add: AsDataclassToDict_def v un d)
  moreover have "structure_into (TDataclass c fs) (JObj items) = Inr v"
    unfolding structure_into_dataclass [OF c] using st [of items] by (simp add: IntoDataclassFromMapping_def v)
  ultimately show "\<exists>j. unstructure_as up (TDataclass c fs) v = Some j \<and> structure_into (TDataclass c fs) j = Inr v"
    by blast
qed

lemma IntoIntFromHex_int_0x2: "IntoIntFromHex_int (JStr ''0x2'') = Inr 2"
  by code_simp

lemma typed_tx_round_trip:
  assumes rt: "\<forall>ft \<in> set fs. round_trips up (fst (snd ft))"
      and dist: "distinct (map (\<lambda>ft. to_camel_case (fst ft)) fs)"
      and ty: "''type'' \<notin> set (map (\<lambda>ft. to_camel_case (fst ft)) fs)"
  shows "round_trips up (TDataclass Type2Transaction fs)"
  unfolding round_trips_def
proof (intro allI impI)
  fix v assume "valid (TDataclass Type2Transaction fs) v"
  then obtain attrs where v: "v = VRecord Type2Transaction attrs"
    and val: "list_all2 (\<lambda>(f, t, d) (f', x). f' = f \<and> valid t x) fs attrs"
    by (rule valid_dataclassE)
  from fields_round_trip [OF val rt dist] obtain items where
    un: "unstructure_fields to_camel_case (map (\<lambda>(f, t, d). (f, unstructure_as up t)) fs) attrs = Some items"
    and keys: "map fst items = map (\<lambda>ft. to_camel_case (fst ft)) fs"
    and st: "\<And>m. \<forall>k \<in> set (map fst items). map_of m k = map_of items k \<Longrightarrow>
               structure_fields to_camel_case (map (\<lambda>(f, t, d). (f, structure_into t, d)) fs) m = Inr attrs"
    by blast
  have d: "dict_of_items items = items"
    using dist keys by (intro dict_of_items_distinct) simp
  have fresh: "''type'' \<notin> fst ` set items"
    using ty keys by (metis set_map)
  define m where "m = items @ [(''type'', JStr ''0x2'')]"
  have upd: "AList.update ''type'' (JStr ''0x2'') items = m"
    unfolding m_def by (rule update_fresh [OF fresh])
  have "unstructure_as up (TDataclass Type2Transaction fs) v = Some (JObj m)"
    unfolding unstructure_as_Type2 AsTypedTx_2 by (simp add: AsDataclassToDict_def v un d upd)
  moreover have "structure_into (TDataclass Type2Transaction fs) (JObj m) = Inr v"
  proof -
    have "map_of items ''type'' = None"
      using fresh by (simp add: map_of_eq_None_iff)
    then have t: "map_of m ''type'' = Some (JStr ''0x2'')"
      by (simp add: m_def map_add_def)
    have same: "\<forall>k \<in> set (map fst items). map_of m k = map_of items k"
    proof
      fix k assume "k \<in> set (map fst items)"
      then obtain y where "map_of items k = Some y"
        by (metis map_of_eq_None_iff not_None_eq set_map)
      then show "map_of m k = map_of items k" by (simp add: m_def map_add_def)
    qed
    show ?thesis
      unfolding structure_into_Type2
      using IntoTypedTx_match [where h = IntoIntFromHex_int, OF t IntoIntFromHex_int_0x2] st [OF same]
      by (simp add: IntoDataclassFromMapping_def v)
  qed
  ultimately show "\<exists>j. unstructure_as up (TDataclass Type2Transaction fs) v = Some j
                      \<and> structure_into (TDataclass Type2Transaction fs) j = Inr v"
    by blast
qed

lemma elements_round_trip:
  assumes "\<forall>v \<in> set vs. \<exists>j. u v = Some j \<and> s j = Inr v"
  shows "\<exists>js. unstructure_elements u vs = Some js \<and> length js = length vs \<and> (\<forall>i. structure_elements s i js = Inr vs)"
  using assms
proof (induction vs)
  case Nil
  then show ?case by simp
next
  case (Cons v vs)
  then obtain j where j: "u v = Some j" "s j = Inr v" by auto
  from Cons obtain js where js: "unstructure_elements u vs = Some js" "length js = length vs"
      "\<forall>i. structure_elements s i js = Inr vs"
    by auto
  have "unstructure_elements u (v # vs) = Some (j # js)" using j js by simp
  moreover have "\<forall>i. structure_elements s i (j # js) = Inr (v # vs)" using j js by simp
  ultimately show ?case using js(2) by auto
qed

lemma tuple_round_trip:
  assumes "round_trips up t"
  shows "round_trips up (TTupleOf t)"
  unfolding round_trips_def
proof (intro allI impI)
  fix v assume "valid (TTupleOf t) v"
  then obtain vs where v: "v = VTuple vs" and all: "list_all (valid t) vs"
    by (cases v) auto
  have "\<forall>x \<in> set vs. \<exists>j. unstructure_as up t x = Some j \<and> structure_into t j = Inr x"
    using all assms by (auto simp: list_all_iff round_trips_def)
  from elements_round_trip [OF this] obtain js where
    "unstructure_elements (unstructure_as up t) vs = Some js"
    "\<forall>i. structure_elements (structure_into t) i js = Inr vs"
    by blast
  then have "unstructure_as up (TTupleOf t) v = Some (JList js) \<and> structure_into (TTupleOf t) (JList js) = Inr v"
    by (simp add: AsTuple_def IntoTuple_def v)
  then show "\<exists>j. unstructure_as up (TTupleOf t) v = Some j \<and> structure_into (TTupleOf t) j = Inr v"
    by blast
qed

lemma BlockLabel_lookup_value: "BlockLabel_lookup (BlockLabel_value l) = Some l"
  by (cases l) (simp_all add: BlockLabel_lookup_def)

lemma leaf_round_trips:
  "round_trips up TInt" "round_trips up TStr" "round_trips up TBool" "round_trips up TBytes"
  "round_trips up TNone" "round_trips up TErrorCode" "round_trips up TBlockLabel"
  "round_trips up TAmount"
proof -
  show "round_trips up TInt"
    unfolding round_trips_def
  proof (intro allI impI)
    fix v assume "valid TInt v"
    then obtain n where "v = VInt n" "0 \<le> n" by (cases v) auto
    then show "\<exists>j. unstructure_as up TInt v = Some j \<and> structure_into TInt j = Inr v"
      by (simp add: AsIntToHex_def IntoIntFromHex_def IntoIntFromHex_int_py_hex)
  qed
  show "round_trips up TStr"
    unfolding round_trips_def
  proof (intro allI impI)
    fix v assume "valid TStr v"
    then show "\<exists>j. unstructure_as up TStr v = Some j \<and> structure_into TStr j = Inr v"
      by (cases v) (simp_all add: AsStr_def IntoStr_def)
  qed
  show "round_trips up TBool"
    unfolding round_trips_def
  proof (intro allI impI)
    fix v assume "valid TBool v"
    then show "\<exists>j. unstructure_as up TBool v = Some j \<and> structure_into TBool j = Inr v"
      by (cases v) (simp_all add: AsBool_def IntoBool_def)
  qed
  show "round_trips up TBytes"
    unfolding round_trips_def
  proof (intro allI impI)
    fix v assume "valid TBytes v"
    then obtain bs where "v = VBytes bs" by (cases v) auto
    then show "\<exists>j. unstructure_as up TBytes v = Some j \<and> structure_into TBytes j = Inr v"
      using IntoBytesFromHex_bytes_hex [of bs] by (simp add: AsBytesToHex_def IntoBytesFromHex_def)
  qed
  show "round_trips up TNone"
    by (simp add: round_trips_def AsNone_def IntoNone_def)
  show "round_trips up TErrorCode"
    unfolding round_trips_def
  proof (intro allI impI)
    fix v assume "valid TErrorCode v"
    then show "\<exists>j. unstructure_as up TErrorCode v = Some j \<and> structure_into TErrorCode j = Inr v"
      by (cases v) (simp_all add: AsInt_def IntoInt_def)
  qed
  show "round_trips up TBlockLabel"
    unfolding round_trips_def
  proof (intro allI impI)
    fix v assume "valid TBlockLabel v"
    then show "\<exists>j. unstructure_as up TBlockLabel v = Some j \<and> structure_into TBlockLabel j = Inr v"
      by (cases v) (simp_all add: AsBlockLabel_def IntoBlockLabel_def BlockLabel_lookup_value)
  qed
  show "round_trips up TAmount"
    unfolding round_trips_def
  proof (intro allI impI)
    fix v assume "valid TAmount v"
    then obtain n where "v = VAmount n" "0 \<le> n" by (cases v) auto
    then show "\<exists>j. unstructure_as up TAmount v = Some j \<and> structure_into TAmount j = Inr v"
      by (simp add: AsTypedQuantity_def IntoTypedQuantity_def IntoIntFromHex_int_py_hex TypedQuantity_init_def)
  qed
qed

lemma unstructure_data:
  "unstructure_as up (TData c) (VData c bs) =
     Some (JStr (if c = Address then checksum up bs else ''0x'' @ bytes_hex bs))"
  by (simp add: AsAddress_def AsTypedData_def)

lemma structure_data_text:
  "IntoBytesFromHex_bytes (JStr (if c = Address then checksum up bs else ''0x'' @ bytes_hex bs)) = Inr bs"
  using IntoBytesFromHex_bytes_hex [of bs] IntoBytesFromHex_bytes_checksum [of up bs]
  by (simp del: append.simps)

lemma data_round_trip: "round_trips up (TData c)"
  unfolding round_trips_def
proof (intro allI impI)
  fix v assume "valid (TData c) v"
  then obtain bs where v: "v = VData c bs" and len: "length bs = data_length c" by (cases v) auto
  have "structure_into (TData c) (JStr (if c = Address then checksum up bs else ''0x'' @ bytes_hex bs)) = Inr v"
    unfolding structure_into.simps IntoTypedData_def structure_data_text
    by (simp add: TypedData_init_def len v)
  with unstructure_data [of up c bs] show "\<exists>j. unstructure_as up (TData c) v = Some j \<and> structure_into (TData c) j = Inr v"
    unfolding v by blast
qed

lemma AsUnion_pick:
  "\<forall>t' \<in> set pre. \<not> instance_of t' v \<Longrightarrow> instance_of t v \<Longrightarrow>
   AsUnion (map (\<lambda>t. (instance_of t, unstructure_as up t)) (pre @ t # post)) v = unstructure_as up t v"
  by (induction pre) simp_all

lemma IntoUnion_pick:
  "\<forall>t' \<in> set pre. \<exists>e. structure_into t' j = Inl e \<and> is_StructuringError e \<Longrightarrow>
   structure_into t j = Inr v \<Longrightarrow>
   IntoUnion (map structure_into (pre @ t # post)) j = Inr v"
  by (induction pre) auto

lemma union_pick:
  assumes "\<forall>t' \<in> set pre. \<not> instance_of t' v"
      and "instance_of t v"
      and "unstructure_as up t v = Some j"
      and "structure_into t j = Inr v"
      and "\<forall>t' \<in> set pre. \<exists>e. structure_into t' j = Inl e \<and> is_StructuringError e"
  shows "\<exists>j. unstructure_as up (TUnion (pre @ t # post)) v = Some j
            \<and> structure_into (TUnion (pre @ t # post)) j = Inr v"
  using AsUnion_pick [OF assms(1,2), of up post] IntoUnion_pick [OF assms(5,4), of post] assms(3)
  by (intro exI [of _ j]) simp

lemma round_tripsD:
  "round_trips up t \<Longrightarrow> valid t v \<Longrightarrow> \<exists>j. unstructure_as up t v = Some j \<and> structure_into t j = Inr v"
  by (simp add: round_trips_def)

lemma optional_round_trip:
  assumes rt: "round_trips up t"
      and nn: "\<forall>v. valid t v \<longrightarrow> v \<noteq> VNone"
      and out: "\<forall>v j. valid t v \<longrightarrow> unstructure_as up t v = Some j \<longrightarrow> j \<noteq> JNull"
  shows "round_trips up (optional t)"
  unfolding round_trips_def optional_def
proof (intro allI impI)
  fix v assume "valid (TUnion [TNone, t]) v"
  then consider "v = VNone" | "valid t v" by auto
  then show "\<exists>j. unstructure_as up (TUnion [TNone, t]) v = Some j \<and> structure_into (TUnion [TNone, t]) j = Inr v"
  proof cases
    case 1
    then show ?thesis by (simp add: AsNone_def IntoNone_def)
  next
    case 2
    from round_tripsD [OF rt 2] obtain j where j: "unstructure_as up t v = Some j" "structure_into t j = Inr v"
      by blast
    from 2 nn have v: "v \<noteq> VNone" by blast
    from 2 j out have "j \<noteq> JNull" by blast
    then have none: "IntoNone j = Inl TypeMismatch" by (cases j) (simp_all add: IntoNone_def)
    have inst: "instance_of t v" using 2 by (rule valid_instance_of)
    show ?thesis
      using union_pick [of "[TNone]" v t up j "[]"] v inst j none by simp
  qed
qed

lemma str_out:
  "valid TInt v \<Longrightarrow> unstructure_as up TInt v = Some j \<Longrightarrow> \<exists>s. j = JStr s"
  "valid TBytes v \<Longrightarrow> unstructure_as up TBytes v = Some j \<Longrightarrow> \<exists>s. j = JStr s"
  "valid TAmount v \<Longrightarrow> unstructure_as up TAmount v = Some j \<Longrightarrow> \<exists>s. j = JStr s"
  "valid (TData c) v \<Longrightarrow> unstructure_as up (TData c) v = Some j \<Longrightarrow> \<exists>s. j = JStr s"
  "valid TBlockLabel v \<Longrightarrow> unstructure_as up TBlockLabel v = Some j \<Longrightarrow> \<exists>s. j = JStr s"
  by (cases v; auto simp: AsIntToHex_def AsBytesToHex_def AsTypedQuantity_def AsAddress_def
        AsTypedData_def AsBlockLabel_def split: if_splits)+

lemma list_out:
  "unstructure_as up (TTupleOf t) v = Some j \<Longrightarrow> \<exists>js. j = JList js"
  by (cases v) (auto simp: AsTuple_def)

lemma optional_leaves:
  "round_trips up (optional TInt)" "round_trips up (optional TBytes)"
  "round_trips up (optional TAmount)" "round_trips up (optional (TData c))"
proof -
  show "round_trips up (optional TInt)"
    by (rule optional_round_trip) (use leaf_round_trips str_out(1) in fastforce)+
  show "round_trips up (optional TBytes)"
    by (rule optional_round_trip) (use leaf_round_trips str_out(2) in fastforce)+
  show "round_trips up (optional TAmount)"
    by (rule optional_round_trip) (use leaf_round_trips str_out(3) in fastforce)+
  show "round_trips up (optional (TData c))"
    by (rule optional_round_trip) (use data_round_trip str_out(4) in fastforce)+
qed

lemma optional_tuple:
  assumes "round_trips up t"
  shows "round_trips up (optional (TTupleOf t))"
proof (rule optional_round_trip)
  show "round_trips up (TTupleOf t)" using assms by (rule tuple_round_trip)
  show "\<forall>v. valid (TTupleOf t) v \<longrightarrow> v \<noteq> VNone" by auto
  show "\<forall>v j. valid (TTupleOf t) v \<longrightarrow> unstructure_as up (TTupleOf t) v = Some j \<longrightarrow> j \<noteq> JNull"
    using list_out by blast
qed

lemma not_hex_label: "IntoIntFromHex (JStr (BlockLabel_value l)) = Inl HexIntExpected"
  by (cases l) (simp_all add: IntoIntFromHex_def IntoIntFromHex_int_def startswith_def)

lemma Block_opt_round_trip: "round_trips up Block_opt_ty"
  unfolding round_trips_def Block_opt_ty_def
proof (intro allI impI)
  let ?U = "TUnion [TNone, TInt, TBlockLabel]"
  fix v assume "valid ?U v"
  then consider "v = VNone" | n where "v = VInt n" "0 \<le> n" | l where "v = VLabel l"
    by (cases v) auto
  then show "\<exists>j. unstructure_as up ?U v = Some j \<and> structure_into ?U j = Inr v"
  proof cases
    case 1
    then show ?thesis by (simp add: AsNone_def IntoNone_def)
  next
    case 2
    then show ?thesis
      by (simp add: AsIntToHex_def IntoNone_def IntoIntFromHex_def IntoIntFromHex_int_py_hex)
  next
    case 3
    then show ?thesis
      by (simp add: AsBlockLabel_def IntoNone_def not_hex_label IntoBlockLabel_def BlockLabel_lookup_value)
  qed
qed

lemma data_or_tuple_round_trip: "round_trips up (TUnion [TNone, TData c, TTupleOf (TData c)])"
  unfolding round_trips_def
proof (intro allI impI)
  let ?U = "TUnion [TNone, TData c, TTupleOf (TData c)]"
  fix v assume "valid ?U v"
  then consider "v = VNone" | "valid (TData c) v" | "valid (TTupleOf (TData c)) v"
    by auto
  then show "\<exists>j. unstructure_as up ?U v = Some j \<and> structure_into ?U j = Inr v"
  proof cases
    case 1
    then show ?thesis by (simp add: AsNone_def IntoNone_def)
  next
    case 2
    from round_tripsD [OF data_round_trip 2] obtain j where
      j: "unstructure_as up (TData c) v = Some j" "structure_into (TData c) j = Inr v"
      by blast
    from str_out(4) [OF 2 j(1)] obtain s where s: "j = JStr s" by blast
    have v: "v \<noteq> VNone" using 2 by auto
    show ?thesis
      using union_pick [of "[TNone]" v "TData c" up j "[TTupleOf (TData c)]"] v valid_instance_of [OF 2] j
      by (simp add: IntoNone_def s)
  next
    case 3
    from round_tripsD [OF tuple_round_trip [OF data_round_trip] 3] obtain j where
      j: "unstructure_as up (TTupleOf (TData c)) v = Some j" "structure_into (TTupleOf (TData c)) j = Inr v"
      by blast
    from list_out [OF j(1)] obtain js where js: "j = JList js" by blast
    from 3 obtain vs where v: "v = VTuple vs" by (cases v) auto
    show ?thesis
      using union_pick [of "[TNone, TData c]" v "TTupleOf (TData c)" up j "[]"] valid_instance_of [OF 3] j
      by (simp add: IntoNone_def IntoTypedData_def IntoBytesFromHex_bytes_def js v)
  qed
qed

lemma address_filter_round_trip: "round_trips up address_filter_ty"
  unfolding address_filter_ty_def by (rule data_or_tuple_round_trip)

lemma topics_filter_round_trip: "round_trips up topics_filter_ty"
  unfolding topics_filter_ty_def by (rule optional_tuple) (rule data_or_tuple_round_trip)

lemma structure_dataclass_str:
  "c \<noteq> Type2Transaction \<Longrightarrow> structure_into (TDataclass c fs) (JStr s) = Inl TypeMismatch"
  by (simp add: IntoDataclassFromMapping_def)

lemma transactions_round_trip:
  assumes rt: "round_trips up (TDataclass TxInfo fs)"
  shows "round_trips up (TUnion [TTupleOf (TDataclass TxInfo fs), TTupleOf (TData TxHash)])"
  unfolding round_trips_def
proof (intro allI impI)
  let ?A = "TTupleOf (TDataclass TxInfo fs)" and ?B = "TTupleOf (TData TxHash)"
  let ?U = "TUnion [?A, ?B]"
  fix v assume "valid ?U v"
  then consider "valid ?A v" | "\<not> valid ?A v" "valid ?B v" by auto
  then show "\<exists>j. unstructure_as up ?U v = Some j \<and> structure_into ?U j = Inr v"
  proof cases
    case 1
    from round_tripsD [OF tuple_round_trip [OF rt] 1] obtain j where
      j: "unstructure_as up ?A v = Some j" "structure_into ?A j = Inr v"
      by blast
    show ?thesis
      using union_pick [of "[]" v ?A up j "[?B]"] valid_instance_of [OF 1] j by simp
  next
    case 2
    then obtain x xs where v: "v = VTuple (x # xs)"
      by (cases v; simp) (metis list.pred_inject(1) neq_Nil_conv)
    with 2(2) obtain bs where x: "x = VData TxHash bs" by (cases x) auto
    from round_tripsD [OF tuple_round_trip [OF data_round_trip] 2(2)] obtain j where
      j: "unstructure_as up ?B v = Some j" "structure_into ?B j = Inr v"
      by blast
    from j(1) obtain s js where js: "j = JList (JStr s # js)"
      by (auto simp: AsTuple_def v x AsTypedData_def split: option.splits)
    have noinst: "\<not> instance_of ?A v" by (simp add: v x)
    have fail: "structure_into ?A j = Inl (ElementError 0 TypeMismatch)"
      by (simp add: IntoTuple_def js IntoDataclassFromMapping_def)
    show ?thesis
      using union_pick [of "[?A]" v ?B up j "[]"] noinst valid_instance_of [OF 2(2)] j fail by simp
  qed
qed

lemmas field_round_trips =
  leaf_round_trips data_round_trip optional_leaves tuple_round_trip
  Block_opt_round_trip address_filter_round_trip topics_filter_round_trip

lemma TxInfo_round_trip: "round_trips up TxInfo_ty"
  unfolding TxInfo_ty_def
  apply (rule dataclass_round_trip)
    apply (simp add: field_round_trips)
   apply code_simp
  apply simp
  done

lemma LogEntry_round_trip: "round_trips up LogEntry_ty"
  unfolding LogEntry_ty_def
  apply (rule dataclass_round_trip)
    apply (simp add: field_round_trips)
   apply code_simp
  apply simp
  done

lemma TxReceipt_round_trip: "round_trips up TxReceipt_ty"
  unfolding TxReceipt_ty_def
  apply (rule dataclass_round_trip)
    apply (simp add: field_round_trips LogEntry_round_trip)
   apply code_simp
  apply simp
  done

lemma BlockInfo_transactions_round_trip:
  "round_trips up (TUnion [TTupleOf TxInfo_ty, TTupleOf (TData TxHash)])"
  using TxInfo_round_trip [of up] unfolding TxInfo_ty_def by (rule transactions_round_trip)

lemma BlockInfo_round_trip: "round_trips up BlockInfo_ty"
  unfolding BlockInfo_ty_def
  apply (rule dataclass_round_trip)
    apply (simp add: field_round_trips BlockInfo_transactions_round_trip)
   apply code_simp
  apply simp
  done

lemma RPCError_round_trip: "round_trips up RPCError_ty"
  unfolding RPCError_ty_def
  apply (rule dataclass_round_trip)
    apply (simp add: field_round_trips)
   apply code_simp
  apply simp
  done

lemma Type2Transaction_round_trip: "round_trips up Type2Transaction_ty"
  unfolding Type2Transaction_ty_def
  apply (rule typed_tx_round_trip)
    apply (simp add: field_round_trips)
   apply code_simp
  apply code_simp
  done

lemma EthCallParams_round_trip: "round_trips up EthCallParams_ty"
  unfolding EthCallParams_ty_def
  apply (rule dataclass_round_trip)
    apply (simp add: field_round_trips)
   apply code_simp
  apply simp
  done

lemma EstimateGasParams_round_trip: "round_trips up EstimateGasParams_ty"
  unfolding EstimateGasParams_ty_def
  apply (rule dataclass_round_trip)
    apply (simp add: field_round_trips)
   apply code_simp
  apply simp
  done

lemma FilterParams_round_trip: "round_trips up FilterParams_ty"
  unfolding FilterParams_ty_def
  apply (rule dataclass_round_trip)
    apply (simp add: field_round_trips)
   apply code_simp
  apply simp
  done

lemma FilterParamsEIP234_round_trip: "round_trips up FilterParamsEIP234_ty"
  unfolding FilterParamsEIP234_ty_def
  apply (rule dataclass_round_trip)
    apply (simp add: field_round_trips)
   apply code_simp
  apply simp
  done

lemma schema_round_trips: "round_trips up (schema c)"
  by (cases c)
    (simp_all add: TxInfo_round_trip LogEntry_round_trip TxReceipt_round_trip BlockInfo_round_trip
       RPCError_round_trip Type2Transaction_round_trip EthCallParams_round_trip
       EstimateGasParams_round_trip FilterParams_round_trip FilterParamsEIP234_round_trip)

lemma schema_dataclass: "\<exists>fs. schema c = TDataclass c fs"
  by (cases c)
    (simp_all add: TxInfo_ty_def LogEntry_ty_def TxReceipt_ty_def BlockInfo_ty_def RPCError_ty_def
       Type2Transaction_ty_def EthCallParams_ty_def EstimateGasParams_ty_def FilterParams_ty_def
       FilterParamsEIP234_ty_def)

text \<open>
  Claim C1.  For every record type of the schema (\<open>TxInfo\<close>, \<open>LogEntry\<close>, \<open>TxReceipt\<close>,
  \<open>BlockInfo\<close>, \<open>RPCError\<close>, \<open>Type2Transaction\<close>, \<open>EthCallParams\<close>, \<open>EstimateGasParams\<close>,
  \<open>FilterParams\<close>, \<open>FilterParamsEIP234\<close>) and every valid instance \<open>v\<close> of it, unstructuring
  \<open>v\<close> succeeds and structuring the result into the type gives \<open>v\<close> back.  This holds for
  every rule that decides the letter case of the checksum text of an address.
\<close>

theorem record_round_trip:
  assumes "valid (schema c) v"
  shows "\<exists>j. unstructure up v None = Some j \<and> structure (schema c) j = Inr v"
proof -
  obtain fs where fs: "schema c = TDataclass c fs" using schema_dataclass by blast
  with assms obtain attrs where v: "v = VRecord c attrs" by (cases v) auto
  from round_tripsD [OF schema_round_trips assms] obtain j where
    "unstructure_as up (schema c) v = Some j" "structure_into (schema c) j = Inr v"
    by blast
  then show ?thesis by (auto simp: unstructure_def structure_def v)
qed

theorem record_round_trip_witness:
  "valid (schema Type2Transaction) tx2_val
   \<and> unstructure (\<lambda>bs i. False) tx2_val None = Some (JObj
       [(''chainId'', JStr ''0x1''), (''value'', JStr ''0x0''), (''gas'', JStr ''0xff''),
        (''maxFeePerGas'', JStr ''0x10''), (''maxPriorityFeePerGas'', JStr ''0x1''),
        (''nonce'', JStr ''0x0''), (''to'', JNull), (''data'', JNull), (''type'', JStr ''0x2'')])
   \<and> structure (schema Type2Transaction) (JObj
       [(''chainId'', JStr ''0x1''), (''value'', JStr ''0x0''), (''gas'', JStr ''0xff''),
        (''maxFeePerGas'', JStr ''0x10''), (''maxPriorityFeePerGas'', JStr ''0x1''),
        (''nonce'', JStr ''0x0''), (''to'', JNull), (''data'', JNull), (''type'', JStr ''0x2'')]) = Inr tx2_val"
proof -
  have v: "valid (schema Type2Transaction) tx2_val" by code_simp
  have u: "unstructure (\<lambda>bs i. False) tx2_val None = Some (JObj
       [(''chainId'', JStr ''0x1''), (''value'', JStr ''0x0''), (''gas'', JStr ''0xff''),
        (''maxFeePerGas'', JStr ''0x10''), (''maxPriorityFeePerGas'', JStr ''0x1''),
        (''nonce'', JStr ''0x0''), (''to'', JNull), (''data'', JNull), (''type'', JStr ''0x2'')])"
    by code_simp
  from record_round_trip [OF v, of "\<lambda>bs i. False"] u v show ?thesis by simp
qed

text \<open>Validity asks for non-negative integers because \<open>hex\<close> puts the sign of a negative
  number in front of the prefix, and the structuring of an \<open>int\<close> wants the prefix first.\<close>

lemma negative_int_no_round_trip:
  "unstructure_as up TInt (VInt (- 1)) = Some (JStr ''-0x1'')
   \<and> structure_into TInt (JStr ''-0x1'') = Inl HexIntExpected"
  by code_simp

section \<open>The error code on the wire\<close>

lemma RPCError_names:
  "to_camel_case ''code'' = ''code''" "to_camel_case ''message'' = ''message''"
  "to_camel_case ''data'' = ''data''"
  by code_simp+





















section \<open>Nesting depth and structuring\<close>

lemma json_depth_nested: "json_depth (nested n) = Suc n"
  by (induction n) simp_all

lemma structure_RPCError_extra:
  "structure RPCError_ty (JObj [(''code'', JInt c), (''message'', JStr m), (''extra'', j)])
     = Inr (VRecord RPCError_cls [(''code'', VInt c), (''message'', VStr m), (''data'', VNone)])"
  by (simp add: structure_def RPCError_ty_def optional_def IntoDataclassFromMapping_def RPCError_names
       IntoInt_def IntoStr_def)

text \<open>
  Claim C9, as the code has it.  Structuring takes no depth bound and has no error for
  depth: its recursion follows the declared type, not the input.  For every \<open>n\<close> there is a
  mapping nested more than \<open>n\<close> deep that structures into an \<open>RPCError\<close>, the nesting being
  under a key that names no field, and a list nested more than \<open>n\<close> deep whose structuring
  into \<open>int\<close>, or into a tuple of \<open>int\<close>, fails with the error of a value that is no hex string.
\<close>

theorem structuring_ignores_depth:
  "json_depth (nested n) = Suc n
   \<and> json_depth (JObj [(''code'', JInt c), (''message'', JStr m), (''extra'', nested n)]) = n + 2
   \<and> structure RPCError_ty (JObj [(''code'', JInt c), (''message'', JStr m), (''extra'', nested n)])
       = Inr (VRecord RPCError_cls [(''code'', VInt c), (''message'', VStr m), (''data'', VNone)])
   \<and> structure TInt (nested n) = Inl HexIntExpected
   \<and> structure (TTupleOf TInt) (nested (Suc n)) = Inl (ElementError 0 HexIntExpected)"
proof (intro conjI)
  show "json_depth (nested n) = Suc n" by (rule json_depth_nested)
  show "json_depth (JObj [(''code'', JInt c), (''message'', JStr m), (''extra'', nested n)]) = n + 2"
    by (simp add: json_depth_nested)
  show "structure RPCError_ty (JObj [(''code'', JInt c), (''message'', JStr m), (''extra'', nested n)])
       = Inr (VRecord RPCError_cls [(''code'', VInt c), (''message'', VStr m), (''data'', VNone)])"
    by (rule structure_RPCError_extra)
  show "structure TInt (nested n) = Inl HexIntExpected"
    by (cases n) (simp_all add: structure_def IntoIntFromHex_def IntoIntFromHex_int_def)
  show "structure (TTupleOf TInt) (nested (Suc n)) = Inl (ElementError 0 HexIntExpected)"
    by (cases n) (simp_all add: structure_def IntoTuple_def IntoIntFromHex_def IntoIntFromHex_int_def)
qed

theorem structuring_ignores_depth_witness:
  "json_depth (nested 3) = 4
   \<and> structure RPCError_ty (JObj [(''code'', JInt 1), (''message'', JStr ''m''), (''extra'', nested 3)])
       = Inr (VRecord RPCError_cls [(''code'', VInt 1), (''message'', VStr ''m''), (''data'', VNone)])
   \<and> structure TInt (nested 3) = Inl HexIntExpected"
  using structuring_ignores_depth [of 3 1 "''m''"] by simp

text \<open>
  There is no bound \<open>D\<close> such that structuring fails on every input nested deeper than \<open>D\<close>:
  whatever \<open>D\<close> is, the mapping above with \<open>n = D\<close> is nested deeper and structures.
\<close>

theorem depth_bound_counterexample:
  "\<not> (\<exists>D. \<forall>t j. D < json_depth j \<longrightarrow> isl (structure t j))"
proof
  assume "\<exists>D. \<forall>t j. D < json_depth j \<longrightarrow> isl (structure t j)"
  then obtain D where D: "\<And>t j. D < json_depth j \<Longrightarrow> isl (structure t j)" by blast
  let ?j = "JObj [(''code'', JInt 1), (''message'', JStr ''m''), (''extra'', nested D)]"
  have "D < json_depth ?j" by (simp add: json_depth_nested)
  then have "isl (structure RPCError_ty ?j)" by (rule D)
  then show False by (simp add: structure_RPCError_extra)
qed

end
